theory Spec2Isabelle
  imports Complex_Main "HOL-Library.Multiset"
begin

section \<open>JavaScript strings\<close>

text \<open>
  A JavaScript string is modelled as a \<^typ>\<open>string\<close>: a list of characters, one per
  code unit, for the code units below 256. \<open>length\<close> is \<open>String.prototype.length\<close>.
\<close>

text \<open>
  The white space and line terminators that \<open>String.prototype.trim\<close> removes: tab,
  line feed, vertical tab, form feed, carriage return, space and the no-break space.
\<close>

definition js_whitespace :: "char \<Rightarrow> bool" where
  "js_whitespace c \<longleftrightarrow>
     c \<in> {CHR 0x09, CHR 0x0A, CHR 0x0B, CHR 0x0C, CHR 0x0D, CHR 0x20, CHR 0xA0}"

text \<open>\<open>s.trim()\<close>: white space removed from both ends.\<close>

definition trim :: "string \<Rightarrow> string" where
  "trim s = rev (dropWhile js_whitespace (rev (dropWhile js_whitespace s)))"

text \<open>
  \<open>s.substring(0, n)\<close> for a number \<open>n\<close>: a negative \<open>n\<close> counts as 0 and an \<open>n\<close>
  beyond the length as the length.
\<close>

definition substring0 :: "string \<Rightarrow> int \<Rightarrow> string" where
  "substring0 s n = take (nat n) s"

section \<open>Live selection tracker (src/context/live-selection.ts)\<close>

record LiveSelection =
  content :: string
  sourcePath :: "string option"
  timestamp :: int

text \<open>
  The manager's fields. The change callback is a single slot: \<open>hasCallback\<close> says
  whether one is registered and \<open>notified\<close> counts how often it has been called.
\<close>

record LiveSelectionManager =
  currentSelection :: "LiveSelection option"
  hasCallback :: bool
  notified :: nat

definition notifyChange :: "LiveSelectionManager \<Rightarrow> LiveSelectionManager" where
  "notifyChange m = (if hasCallback m then m\<lparr>notified := Suc (notified m)\<rparr> else m)"

definition clearSelection :: "LiveSelectionManager \<Rightarrow> LiveSelectionManager" where
  "clearSelection m =
     (let hadSelection = (currentSelection m \<noteq> None);
          m' = m\<lparr>currentSelection := None\<rparr>
      in if hadSelection then notifyChange m' else m')"

text \<open>\<open>now\<close> is the value of \<open>Date.now()\<close> at the call.\<close>

definition setSelection ::
  "string \<Rightarrow> string option \<Rightarrow> int \<Rightarrow> LiveSelectionManager \<Rightarrow> LiveSelectionManager" where
  "setSelection c sp now m =
     (if c = [] \<or> length (trim c) = 0 then clearSelection m
      else notifyChange
             (m\<lparr>currentSelection := Some \<lparr>content = c, sourcePath = sp, timestamp = now\<rparr>\<rparr>))"

definition getPreview :: "LiveSelectionManager \<Rightarrow> int \<Rightarrow> string" where
  "getPreview m maxLength =
     (case currentSelection m of
        None \<Rightarrow> []
      | Some sel \<Rightarrow>
          if int (length (content sel)) \<le> maxLength then content sel
          else substring0 (content sel) (maxLength - 3) @ ''...'')"

section \<open>Array helpers\<close>

text \<open>\<open>xs.findIndex(P)\<close>: the index of the first element satisfying \<open>P\<close>; \<open>None\<close> is -1.\<close>

fun findIndex :: "('a \<Rightarrow> bool) \<Rightarrow> 'a list \<Rightarrow> nat option" where
  "findIndex P [] = None"
| "findIndex P (x # xs) = (if P x then Some 0 else map_option Suc (findIndex P xs))"

text \<open>\<open>xs.splice(i, 1)\<close>: the element at index \<open>i\<close> removed.\<close>

definition splice1 :: "nat \<Rightarrow> 'a list \<Rightarrow> 'a list" where
  "splice1 i xs = take i xs @ drop (Suc i) xs"

section \<open>Types (src/types.ts)\<close>

datatype ProviderType = OpenAI | Anthropic | Custom

record AIProvider =
  provider_id :: string
  provider_name :: string
  baseUrl :: string
  apiKey :: string
  enabled :: bool
  provider_type :: ProviderType

record AIModel =
  model_id :: string
  model_name :: string
  providerId :: string
  modelIdentifier :: string
  isDefault :: bool

datatype Role = User | Assistant | System

record ChatMessage =
  message_id :: string
  role :: Role
  message_content :: string
  message_timestamp :: int
  modelId :: "string option"

datatype ContextType = File | Folder | Selection

record ContextItem =
  context_id :: string
  context_type :: ContextType
  path :: "string option"
  context_content :: string
  displayName :: string

record ChatSession =
  session_id :: string
  messages :: "ChatMessage list"
  contextItems :: "ContextItem list"
  currentModelId :: string
  createdAt :: int
  updatedAt :: int

record PluginSettings =
  providers :: "AIProvider list"
  models :: "AIModel list"
  currentSessionId :: "string option"
  sessions :: "ChatSession list"
  maxHistorySize :: int
  streamingEnabled :: bool

section \<open>Validation (src/settings/validation.ts)\<close>

text \<open>
  A field of a partial record is \<open>None\<close> when it is missing. The test
  \<open>!x || x.trim() === ''\<close> holds for a missing field, for the empty string and for a
  string of white space.
\<close>

definition blank :: "string option \<Rightarrow> bool" where
  "blank x = (case x of None \<Rightarrow> True | Some s \<Rightarrow> s = [] \<or> trim s = [])"

text \<open>Both validators return the list of errors; \<open>valid\<close> is \<open>errors.length === 0\<close>.\<close>

definition validateProvider :: "string option \<Rightarrow> string option \<Rightarrow> string option \<Rightarrow> string list" where
  "validateProvider name url key =
     (if blank name then [''Provider name is required''] else []) @
     (if blank url then [''Base URL is required''] else []) @
     (if blank key then [''API key is required''] else [])"

definition validateModel :: "string option \<Rightarrow> string option \<Rightarrow> string option \<Rightarrow> string list" where
  "validateModel name pid ident =
     (if blank name then [''Model name is required''] else []) @
     (if blank pid then [''Provider ID is required''] else []) @
     (if blank ident then [''Model identifier is required''] else [])"

section \<open>Settings manager (src/settings/settings-manager.ts)\<close>

text \<open>
  The manager's state is its \<open>settings\<close> field. The arrays hold distinct objects, so a
  write through a reference found in an array is a write at that index. Every operation
  returns its result together with the new state; \<open>generateId()\<close> is the argument
  \<open>newId\<close>.
\<close>

definition DEFAULT_SETTINGS :: PluginSettings where
  "DEFAULT_SETTINGS =
     \<lparr>providers = [], models = [], currentSessionId = None, sessions = [],
      maxHistorySize = 50, streamingEnabled = True\<rparr>"

text \<open>\<open>Omit<AIProvider, 'id'>\<close>\<close>

record ProviderInput =
  pi_name :: string
  pi_baseUrl :: string
  pi_apiKey :: string
  pi_enabled :: bool
  pi_type :: ProviderType

definition addProvider ::
  "ProviderInput \<Rightarrow> string \<Rightarrow> PluginSettings \<Rightarrow> (string list + AIProvider) \<times> PluginSettings" where
  "addProvider p newId s =
     (let errors = validateProvider (Some (pi_name p)) (Some (pi_baseUrl p)) (Some (pi_apiKey p))
      in if errors \<noteq> [] then (Inl errors, s)
         else
           let newProvider =
                 \<lparr>provider_id = newId, provider_name = pi_name p, baseUrl = pi_baseUrl p,
                  apiKey = pi_apiKey p, enabled = pi_enabled p, provider_type = pi_type p\<rparr>
           in (Inr newProvider, s\<lparr>providers := providers s @ [newProvider]\<rparr>))"

definition deleteProvider :: "string \<Rightarrow> PluginSettings \<Rightarrow> bool \<times> PluginSettings" where
  "deleteProvider i s =
     (case findIndex (\<lambda>p. provider_id p = i) (providers s) of
        None \<Rightarrow> (False, s)
      | Some index \<Rightarrow>
          (True, s\<lparr>providers := splice1 index (providers s),
                   models := filter (\<lambda>m. providerId m \<noteq> i) (models s)\<rparr>))"

text \<open>\<open>Omit<AIModel, 'id'>\<close>\<close>

record ModelInput =
  mi_name :: string
  mi_providerId :: string
  mi_modelIdentifier :: string
  mi_isDefault :: bool

text \<open>\<open>models.forEach(m => { m.isDefault = false; })\<close>\<close>

definition unsetDefaults :: "AIModel list \<Rightarrow> AIModel list" where
  "unsetDefaults ms = map (\<lambda>m. m\<lparr>isDefault := False\<rparr>) ms"

definition addModel ::
  "ModelInput \<Rightarrow> string \<Rightarrow> PluginSettings \<Rightarrow> (string list + AIModel) \<times> PluginSettings" where
  "addModel m newId s =
     (let errors = validateModel (Some (mi_name m)) (Some (mi_providerId m))
                     (Some (mi_modelIdentifier m))
      in if errors \<noteq> [] then (Inl errors, s)
         else if find (\<lambda>p. provider_id p = mi_providerId m) (providers s) = None
         then (Inl [''Provider not found''], s)
         else
           let newModel =
                 \<lparr>model_id = newId, model_name = mi_name m, providerId = mi_providerId m,
                  modelIdentifier = mi_modelIdentifier m, isDefault = mi_isDefault m\<rparr>;
               ms = (if isDefault newModel then unsetDefaults (models s) else models s)
           in (Inr newModel, s\<lparr>models := ms @ [newModel]\<rparr>))"

text \<open>\<open>Partial<Omit<AIModel, 'id'>>\<close>: \<open>None\<close> is a field the update does not carry.\<close>

record ModelUpdates =
  mu_name :: "string option"
  mu_providerId :: "string option"
  mu_modelIdentifier :: "string option"
  mu_isDefault :: "bool option"

text \<open>\<open>{ ...model, ...updates }\<close>\<close>

definition applyUpdates :: "AIModel \<Rightarrow> ModelUpdates \<Rightarrow> AIModel" where
  "applyUpdates m u =
     \<lparr>model_id = model_id m,
      model_name = (case mu_name u of None \<Rightarrow> model_name m | Some x \<Rightarrow> x),
      providerId = (case mu_providerId u of None \<Rightarrow> providerId m | Some x \<Rightarrow> x),
      modelIdentifier = (case mu_modelIdentifier u of None \<Rightarrow> modelIdentifier m | Some x \<Rightarrow> x),
      isDefault = (case mu_isDefault u of None \<Rightarrow> isDefault m | Some x \<Rightarrow> x)\<rparr>"

definition updateModel ::
  "string \<Rightarrow> ModelUpdates \<Rightarrow> PluginSettings \<Rightarrow> (string list + AIModel) \<times> PluginSettings" where
  "updateModel i u s =
     (case findIndex (\<lambda>m. model_id m = i) (models s) of
        None \<Rightarrow> (Inl [''Model not found''], s)
      | Some index \<Rightarrow>
          let updatedModel = applyUpdates (models s ! index) u;
              errors = validateModel (Some (model_name updatedModel))
                         (Some (providerId updatedModel)) (Some (modelIdentifier updatedModel))
          in if errors \<noteq> [] then (Inl errors, s)
             else if (case mu_providerId u of
                        None \<Rightarrow> False
                      | Some p \<Rightarrow> p \<noteq> [] \<and> find (\<lambda>q. provider_id q = p) (providers s) = None)
             then (Inl [''Provider not found''], s)
             else
               let ms = (if mu_isDefault u = Some True then unsetDefaults (models s)
                         else models s)
               in (Inr updatedModel, s\<lparr>models := ms[index := updatedModel]\<rparr>))"

definition deleteModel :: "string \<Rightarrow> PluginSettings \<Rightarrow> bool \<times> PluginSettings" where
  "deleteModel i s =
     (case findIndex (\<lambda>m. model_id m = i) (models s) of
        None \<Rightarrow> (False, s)
      | Some index \<Rightarrow> (True, s\<lparr>models := splice1 index (models s)\<rparr>))"

text \<open>
  \<open>models.find\<close> returns the first model with the id; it is the object at the index
  \<open>findIndex\<close> gives, and the write to it comes after the \<open>forEach\<close>.
\<close>

definition setDefaultModel :: "string \<Rightarrow> PluginSettings \<Rightarrow> bool \<times> PluginSettings" where
  "setDefaultModel i s =
     (case findIndex (\<lambda>m. model_id m = i) (models s) of
        None \<Rightarrow> (False, s)
      | Some index \<Rightarrow>
          let ms = unsetDefaults (models s)
          in (True, s\<lparr>models := ms[index := (ms ! index)\<lparr>isDefault := True\<rparr>]\<rparr>))"

text \<open>A call of the registry, and a sequence of calls run from a state.\<close>

datatype RegistryCall =
    AddProvider ProviderInput string
  | DeleteProvider string
  | AddModel ModelInput string
  | UpdateModel string ModelUpdates
  | DeleteModel string
  | SetDefaultModel string

fun call :: "RegistryCall \<Rightarrow> PluginSettings \<Rightarrow> PluginSettings" where
  "call (AddProvider p newId) s = snd (addProvider p newId s)"
| "call (DeleteProvider i) s = snd (deleteProvider i s)"
| "call (AddModel m newId) s = snd (addModel m newId s)"
| "call (UpdateModel i u) s = snd (updateModel i u s)"
| "call (DeleteModel i) s = snd (deleteModel i s)"
| "call (SetDefaultModel i) s = snd (setDefaultModel i s)"

definition calls :: "RegistryCall list \<Rightarrow> PluginSettings \<Rightarrow> PluginSettings" where
  "calls cs s = fold call cs s"

text \<open>The number of models that are the default.\<close>

definition defaultCount :: "PluginSettings \<Rightarrow> nat" where
  "defaultCount s = length (filter isDefault (models s))"

section \<open>Chat state manager (src/state/chat-state.ts)\<close>

definition MAX_SESSIONS :: nat where
  "MAX_SESSIONS = 10"

record ChatStateManager =
  chat_sessions :: "ChatSession list"
  chat_currentSessionId :: "string option"

text \<open>
  \<open>sessions.sort((a, b) => b.updatedAt - a.updatedAt)\<close>: a stable sort, greatest
  \<open>updatedAt\<close> first.
\<close>

definition sortByUpdatedAtDesc :: "ChatSession list \<Rightarrow> ChatSession list" where
  "sortByUpdatedAtDesc xs = sort_key (\<lambda>s. - updatedAt s) xs"

text \<open>A session id is truthy when it is neither \<open>null\<close> nor the empty string.\<close>

definition pruneSessions :: "ChatStateManager \<Rightarrow> ChatStateManager" where
  "pruneSessions st =
     (if length (chat_sessions st) > MAX_SESSIONS then
        let kept = take MAX_SESSIONS (sortByUpdatedAtDesc (chat_sessions st));
            cur = chat_currentSessionId st;
            cur' = (if cur \<noteq> None \<and> cur \<noteq> Some [] \<and>
                       find (\<lambda>s. Some (session_id s) = cur) kept = None
                    then (if length kept > 0 then Some (session_id (kept ! 0)) else None)
                    else cur)
        in \<lparr>chat_sessions = kept, chat_currentSessionId = cur'\<rparr>
      else st)"

text \<open>
  \<open>newId\<close> is the id \<open>generateId()\<close> returns, \<open>now1\<close> and \<open>now2\<close> the two readings of
  \<open>Date.now()\<close>.
\<close>

definition newSession :: "string \<Rightarrow> string \<Rightarrow> int \<Rightarrow> int \<Rightarrow> ChatSession" where
  "newSession mid newId now1 now2 =
     \<lparr>session_id = newId, messages = [], contextItems = [], currentModelId = mid,
      createdAt = now1, updatedAt = now2\<rparr>"

definition createSession ::
  "string \<Rightarrow> string \<Rightarrow> int \<Rightarrow> int \<Rightarrow> ChatStateManager \<Rightarrow> ChatSession \<times> ChatStateManager" where
  "createSession mid newId now1 now2 st =
     (let session = newSession mid newId now1 now2
      in (session,
          pruneSessions \<lparr>chat_sessions = chat_sessions st @ [session],
                         chat_currentSessionId = Some newId\<rparr>))"

section \<open>More string helpers\<close>

text \<open>\<open>s.split('\n')\<close>: never empty; the last element is what follows the last newline.\<close>

fun split_nl :: "string \<Rightarrow> string list" where
  "split_nl [] = [[]]"
| "split_nl (c # cs) =
     (if c = CHR ''\<newline>'' then [] # split_nl cs
      else (case split_nl cs of [] \<Rightarrow> [[c]] | l # ls \<Rightarrow> (c # l) # ls))"

text \<open>\<open>xs.join(sep)\<close>\<close>

fun join :: "string \<Rightarrow> string list \<Rightarrow> string" where
  "join sep [] = []"
| "join sep [x] = x"
| "join sep (x # y # ys) = x @ sep @ join sep (y # ys)"

text \<open>\<open>s.startsWith(p)\<close>\<close>

definition startsWith :: "string \<Rightarrow> string \<Rightarrow> bool" where
  "startsWith p s \<longleftrightarrow> take (length p) s = p"

text \<open>The decimal rendering of an integer, as string concatenation with a number gives.\<close>

definition digit_char :: "nat \<Rightarrow> char" where
  "digit_char d = ''0123456789'' ! d"

function string_of_nat :: "nat \<Rightarrow> string" where
  "string_of_nat n =
     (if n < 10 then [digit_char n] else string_of_nat (n div 10) @ [digit_char (n mod 10)])"
  by pat_completeness auto
termination
  by (relation "measure id") auto

declare string_of_nat.simps [simp del]

definition string_of_int :: "int \<Rightarrow> string" where
  "string_of_int n = (if n < 0 then ''-'' @ string_of_nat (nat (- n)) else string_of_nat (nat n))"

section \<open>Context manager (src/context/context-manager.ts)\<close>

definition formatFileContext :: "string \<Rightarrow> string \<Rightarrow> string" where
  "formatFileContext p c =
     ''--- File: '' @ p @ '' ---\<newline>'' @ c @ ''\<newline>--- End of '' @ p @ '' ---''"

definition formatSelectionContext :: "string \<Rightarrow> string" where
  "formatSelectionContext c = join ''\<newline>'' (map (\<lambda>line. ''> '' @ line) (split_nl c))"

text \<open>
  The manager's map keeps its items in insertion order; \<open>getActiveContext()\<close> is that
  list. \<open>item.path || item.displayName\<close> takes the display name for a missing or empty
  path.
\<close>

definition formatContextForAPI :: "ContextItem list \<Rightarrow> string" where
  "formatContextForAPI items =
     (if length items = 0 then []
      else
        let formattedItems =
              map (\<lambda>item.
                     if context_type item = Selection
                     then ''[Selected Text]\<newline>'' @ formatSelectionContext (context_content item)
                     else formatFileContext
                            (case path item of
                               None \<Rightarrow> displayName item
                             | Some p \<Rightarrow> if p = [] then displayName item else p)
                            (context_content item))
                  items
        in ''The following context has been provided:\<newline>\<newline>'' @
           join ''\<newline>\<newline>'' formattedItems)"

section \<open>AI service client: request build (src/services/ai-client.ts)\<close>

definition contextContent :: "ContextItem list \<Rightarrow> string" where
  "contextContent items =
     join ''\<newline>\<newline>---\<newline>\<newline>''
       (map (\<lambda>item. ''['' @ displayName item @ '']\<newline>'' @ context_content item) items)"

definition prependContext ::
  "ChatMessage list \<Rightarrow> ContextItem list \<Rightarrow> int \<Rightarrow> int \<Rightarrow> ChatMessage list" where
  "prependContext msgs items now1 now2 =
     (if length items = 0 then msgs
      else
        let contextMessage =
              \<lparr>message_id = ''context-'' @ string_of_int now1,
               role = System,
               message_content = ''Context:\<newline>\<newline>'' @ contextContent items,
               message_timestamp = now2,
               modelId = None\<rparr>
        in contextMessage # msgs)"

section \<open>AI service client: dispatch with retry (src/services/ai-client.ts)\<close>

datatype APIErrorType = Auth | RateLimit | Network | Server | Timeout | Unknown

text \<open>
  A JavaScript number: \<open>NaN\<close>, an infinity, negative zero, or a finite value
  (\<open>Finite 0\<close> is positive zero).
\<close>

datatype JSNumber = NaN | PosInfinity | NegInfinity | NegZero | Finite real

record APIError =
  error_message :: string
  error_type :: APIErrorType
  statusCode :: "int option"
  retryAfter :: "JSNumber option"

text \<open>
  What the client reads of a \<open>Response\<close>: \<open>ok\<close>, \<open>status\<close> and
  \<open>headers.get('retry-after')\<close> (\<open>None\<close> when the header is absent).
\<close>

record Response =
  ok :: bool
  status :: int
  retryAfterHeader :: "string option"

text \<open>
  The outcome of one call of \<open>fetch\<close>: a response, a rejection with an \<open>AbortError\<close>
  (the timeout fired), or any other exception.
\<close>

datatype FetchOutcome = Resolved Response | AbortError | OtherError

definition MAX_RETRIES :: nat where
  "MAX_RETRIES = 3"

definition BACKOFF_DELAYS :: "int list" where
  "BACKOFF_DELAYS = [1000, 2000, 4000]"

text \<open>
  \<open>classifyError\<close>. The built-in \<open>parseInt\<close> is a parameter: \<open>parseInt h\<close> is the
  number \<open>parseInt(h, 10)\<close> returns.
\<close>

definition classifyError :: "(string \<Rightarrow> JSNumber) \<Rightarrow> Response \<Rightarrow> APIError" where
  "classifyError parseInt response =
     (let code = status response
      in if code = 401 \<or> code = 403 then
           \<lparr>error_message = ''Invalid API key. Please check your provider settings.'',
            error_type = Auth, statusCode = Some code, retryAfter = None\<rparr>
         else if code = 429 then
           \<lparr>error_message = ''Rate limit exceeded. Please wait before sending another message.'',
            error_type = RateLimit, statusCode = Some code,
            retryAfter =
              (case retryAfterHeader response of
                 None \<Rightarrow> None
               | Some h \<Rightarrow> if h = [] then None else Some (parseInt h))\<rparr>
         else if code \<ge> 500 then
           \<lparr>error_message = ''AI provider service error. Please try again later.'',
            error_type = Server, statusCode = Some code, retryAfter = None\<rparr>
         else
           \<lparr>error_message = ''API error: '' @ string_of_int code,
            error_type = Unknown, statusCode = Some code, retryAfter = None\<rparr>)"

definition timeoutError :: APIError where
  "timeoutError =
     \<lparr>error_message = ''Request timeout. Please try again.'',
      error_type = Timeout, statusCode = None, retryAfter = None\<rparr>"

definition networkError :: APIError where
  "networkError =
     \<lparr>error_message = ''Network error. Please check your connection and try again.'',
      error_type = Network, statusCode = None, retryAfter = None\<rparr>"

definition unknownError :: APIError where
  "unknownError =
     \<lparr>error_message = ''Unknown error'', error_type = Unknown, statusCode = None,
      retryAfter = None\<rparr>"

text \<open>
  What a run of \<open>makeRequest\<close> is observed to do: the response it returns or the error
  it throws, the number of calls of \<open>fetch\<close>, and the delays it waited, in order.
\<close>

record RequestRun =
  outcome :: "APIError + Response"
  attempts :: nat
  delays :: "int list"

text \<open>
  The \<open>for\<close> loop of \<open>makeRequest\<close>. \<open>fetch k\<close> is the outcome of the call of
  \<open>fetch\<close> in iteration \<open>k\<close>; every iteration makes exactly one call, so the
  iteration that returns or throws at \<open>attempt\<close> has made \<open>attempt + 1\<close> calls. An
  \<open>APIError\<close> thrown in the inner \<open>try\<close> is thrown again by the \<open>catch\<close>.
\<close>

function makeRequest_loop ::
  "(string \<Rightarrow> JSNumber) \<Rightarrow> (nat \<Rightarrow> FetchOutcome) \<Rightarrow> nat \<Rightarrow> APIError option \<Rightarrow>
     int list \<Rightarrow> RequestRun" where
  "makeRequest_loop parseInt fetch attempt lastError waited =
     (if attempt < MAX_RETRIES then
        (case fetch attempt of
           Resolved response \<Rightarrow>
             if \<not> ok response then
               let error = classifyError parseInt response
               in if error_type error = Auth then
                    \<lparr>outcome = Inl error, attempts = Suc attempt, delays = waited\<rparr>
                  else if error_type error = RateLimit then
                    \<lparr>outcome = Inl error, attempts = Suc attempt, delays = waited\<rparr>
                  else if attempt = MAX_RETRIES - 1 then
                    \<lparr>outcome = Inl error, attempts = Suc attempt, delays = waited\<rparr>
                  else makeRequest_loop parseInt fetch (Suc attempt) (Some error)
                         (waited @ [BACKOFF_DELAYS ! attempt])
             else \<lparr>outcome = Inr response, attempts = Suc attempt, delays = waited\<rparr>
         | AbortError \<Rightarrow>
             if attempt = MAX_RETRIES - 1 then
               \<lparr>outcome = Inl timeoutError, attempts = Suc attempt, delays = waited\<rparr>
             else makeRequest_loop parseInt fetch (Suc attempt) (Some timeoutError)
                    (waited @ [BACKOFF_DELAYS ! attempt])
         | OtherError \<Rightarrow>
             if attempt = MAX_RETRIES - 1 then
               \<lparr>outcome = Inl networkError, attempts = Suc attempt, delays = waited\<rparr>
             else makeRequest_loop parseInt fetch (Suc attempt) (Some networkError)
                    (waited @ [BACKOFF_DELAYS ! attempt]))
      else
        \<lparr>outcome = Inl (case lastError of Some e \<Rightarrow> e | None \<Rightarrow> unknownError),
         attempts = attempt, delays = waited\<rparr>)"
  by pat_completeness auto
termination
  by (relation "measure (\<lambda>(parseInt, fetch, attempt, lastError, waited). MAX_RETRIES - attempt)") auto

declare makeRequest_loop.simps [simp del]

definition makeRequest :: "(string \<Rightarrow> JSNumber) \<Rightarrow> (nat \<Rightarrow> FetchOutcome) \<Rightarrow> RequestRun" where
  "makeRequest parseInt fetch = makeRequest_loop parseInt fetch 0 None []"

text \<open>The error a failed attempt is classified as.\<close>

definition failureOf :: "(string \<Rightarrow> JSNumber) \<Rightarrow> FetchOutcome \<Rightarrow> APIError" where
  "failureOf parseInt x =
     (case x of Resolved r \<Rightarrow> classifyError parseInt r | AbortError \<Rightarrow> timeoutError
      | OtherError \<Rightarrow> networkError)"

text \<open>A 5xx response or a transport-level failure (timeout abort or network exception).\<close>

definition serverOrTransportFailure :: "FetchOutcome \<Rightarrow> bool" where
  "serverOrTransportFailure x =
     (case x of Resolved r \<Rightarrow> \<not> ok r \<and> status r \<ge> 500 | AbortError \<Rightarrow> True
      | OtherError \<Rightarrow> True)"

text \<open>A response that is not ok and that \<open>classifyError\<close> types \<open>unknown\<close>.\<close>

definition unknownFailure :: "(string \<Rightarrow> JSNumber) \<Rightarrow> FetchOutcome \<Rightarrow> bool" where
  "unknownFailure parseInt x =
     (case x of Resolved r \<Rightarrow> \<not> ok r \<and> error_type (classifyError parseInt r) = Unknown
      | AbortError \<Rightarrow> False | OtherError \<Rightarrow> False)"

section \<open>AI service client: streaming responses (src/services/ai-client.ts)\<close>

text \<open>
  A value \<open>JSON.parse\<close> returns. An object is the list of its own properties; the
  first binding of a key is the one a property read finds.
\<close>

datatype json =
    JNull
  | JBool bool
  | JNumber real
  | JString string
  | JArray "json list"
  | JObject "(string \<times> json) list"

text \<open>
  The result of a property read is a \<^typ>\<open>json option\<close>, \<open>None\<close> being
  \<open>undefined\<close>. \<open>getProp v k\<close> is \<open>v.k\<close> for a \<open>v\<close> that is not \<open>null\<close> and for the
  names the client reads (\<open>choices\<close>, \<open>delta\<close>, \<open>content\<close>, \<open>text\<close>): only an object can
  have them. \<open>index0 v\<close> is \<open>v[0]\<close>: the first element of an array, the first character
  of a string, the property \<open>0\<close> of an object.
\<close>

fun getProp :: "json \<Rightarrow> string \<Rightarrow> json option" where
  "getProp (JObject kvs) k = map_of kvs k"
| "getProp v k = None"

fun index0 :: "json \<Rightarrow> json option" where
  "index0 (JArray xs) = (case xs of [] \<Rightarrow> None | x # rest \<Rightarrow> Some x)"
| "index0 (JString s) = (case s of [] \<Rightarrow> None | c # rest \<Rightarrow> Some (JString [c]))"
| "index0 (JObject kvs) = map_of kvs ''0''"
| "index0 v = None"

text \<open>Optional chaining \<open>a?.f\<close>: \<open>undefined\<close> when \<open>a\<close> is \<open>undefined\<close> or \<open>null\<close>.\<close>

fun optChain :: "json option \<Rightarrow> (json \<Rightarrow> json option) \<Rightarrow> json option" where
  "optChain None f = None"
| "optChain (Some JNull) f = None"
| "optChain (Some v) f = f v"

text \<open>The truth value of a value in a condition.\<close>

fun truthy :: "json option \<Rightarrow> bool" where
  "truthy None = False"
| "truthy (Some JNull) = False"
| "truthy (Some (JBool b)) = b"
| "truthy (Some (JNumber n)) = (n \<noteq> 0)"
| "truthy (Some (JString s)) = (s \<noteq> [])"
| "truthy (Some (JArray xs)) = True"
| "truthy (Some (JObject kvs)) = True"

text \<open>
  The two reads of \<open>extractStreamContent\<close>, for a \<open>parsed\<close> that is not \<open>null\<close>:
  \<open>choices?.[0]?.delta?.content\<close> with \<open>choices = parsed.choices\<close>, and \<open>delta?.text\<close>
  with \<open>delta = parsed.delta\<close>.
\<close>

definition choicesDeltaContent :: "json \<Rightarrow> json option" where
  "choicesDeltaContent parsed =
     (let choices = getProp parsed ''choices''
      in optChain (optChain (optChain choices index0) (\<lambda>v. getProp v ''delta''))
           (\<lambda>v. getProp v ''content''))"

definition deltaText :: "json \<Rightarrow> json option" where
  "deltaText parsed =
     (let delta = getProp parsed ''delta''
      in optChain delta (\<lambda>v. getProp v ''text''))"

text \<open>
  \<open>extractStreamContent\<close>. The result \<open>None\<close> is the \<open>TypeError\<close> that reading
  \<open>parsed.choices\<close> throws when \<open>parsed\<close> is \<open>null\<close>.
\<close>

definition extractStreamContent :: "json \<Rightarrow> json option" where
  "extractStreamContent parsed =
     (if parsed = JNull then None
      else if truthy (choicesDeltaContent parsed) then choicesDeltaContent parsed
      else if truthy (deltaText parsed) then deltaText parsed
      else Some (JString []))"

text \<open>
  The body of the \<open>try\<close> that handles the data of one frame: the list of the calls of
  \<open>onChunk\<close> it makes (none or one). \<open>parse\<close> is \<open>JSON.parse\<close>, with \<open>None\<close> for a
  \<open>SyntaxError\<close>; an exception in the \<open>try\<close> is caught and the frame skipped.
\<close>

definition deliver :: "(string \<Rightarrow> json option) \<Rightarrow> string \<Rightarrow> json list" where
  "deliver parse d =
     (case parse d of
        None \<Rightarrow> []
      | Some parsed \<Rightarrow>
          (case extractStreamContent parsed of
             None \<Rightarrow> []
           | Some c \<Rightarrow> if truthy (Some c) then [c] else []))"

text \<open>
  One pass of the \<open>for\<close> loop over a complete line: \<open>None\<close> is the \<open>return\<close> at
  \<open>[DONE]\<close>, \<open>Some cs\<close> the calls of \<open>onChunk\<close> made for the line.
\<close>

definition processLine :: "(string \<Rightarrow> json option) \<Rightarrow> string \<Rightarrow> json list option" where
  "processLine parse raw =
     (let line = trim raw
      in if line = [] then Some []
         else if startsWith ''data: '' line then
           let d = drop 6 line
           in if d = ''[DONE]'' then None else Some (deliver parse d)
         else Some [])"

text \<open>The \<open>for\<close> loop: the calls made, and whether it returned at \<open>[DONE]\<close>.\<close>

fun processLines :: "(string \<Rightarrow> json option) \<Rightarrow> string list \<Rightarrow> json list \<times> bool" where
  "processLines parse [] = ([], False)"
| "processLines parse (l # ls) =
     (case processLine parse l of
        None \<Rightarrow> ([], True)
      | Some cs \<Rightarrow> (let (rest, d) = processLines parse ls in (cs @ rest, d)))"

text \<open>The step after the read loop: what is left in the buffer.\<close>

definition flushBuffer :: "(string \<Rightarrow> json option) \<Rightarrow> string \<Rightarrow> json list" where
  "flushBuffer parse buffer =
     (if startsWith ''data: '' (trim buffer) then
        let d = drop 6 (trim buffer)
        in if d \<noteq> ''[DONE]'' then deliver parse d else []
      else [])"

text \<open>
  What a run of \<open>handleStreamResponse\<close> is observed to do: the arguments of the calls
  of \<open>onChunk\<close> in order, the number of reads that delivered data, and whether it
  returned at \<open>[DONE]\<close>.
\<close>

record StreamRun =
  chunks :: "json list"
  reads :: nat
  sawDone :: bool

text \<open>
  The \<open>while\<close> loop. The list holds the text of the successive reads (what the streaming
  decoder makes of each); the stream is closed (\<open>done\<close>) when the list is exhausted.
\<close>

fun readLoop :: "(string \<Rightarrow> json option) \<Rightarrow> string \<Rightarrow> string list \<Rightarrow> StreamRun" where
  "readLoop parse buffer [] =
     \<lparr>chunks = flushBuffer parse buffer, reads = 0, sawDone = False\<rparr>"
| "readLoop parse buffer (v # vs) =
     (let lines = split_nl (buffer @ v);
          (cs, d) = processLines parse (butlast lines)
      in if d then \<lparr>chunks = cs, reads = 1, sawDone = True\<rparr>
         else
           let r = readLoop parse (last lines) vs
           in \<lparr>chunks = cs @ chunks r, reads = Suc (reads r), sawDone = sawDone r\<rparr>)"

text \<open>\<open>body\<close> is \<open>None\<close> when the response has no readable body.\<close>

definition handleStreamResponse ::
  "(string \<Rightarrow> json option) \<Rightarrow> string list option \<Rightarrow> APIError + StreamRun" where
  "handleStreamResponse parse body =
     (case body of
        None \<Rightarrow>
          Inl \<lparr>error_message = ''Response body is not readable'', error_type = Unknown,
               statusCode = None, retryAfter = None\<rparr>
      | Some vs \<Rightarrow> Inr (readLoop parse [] vs))"

section \<open>The streaming parse as the specification describes it\<close>

text \<open>
  The specification's parse, on the whole text of the stream at once. The text is split
  at newlines; every piece but the last is a complete line. A line is the \<open>[DONE]\<close>
  sentinel when it is \<open>data: [DONE]\<close> up to surrounding white space. A line that is a
  \<open>data: \<close> frame delivers what its data yields; blank lines, other lines and frames
  whose data does not parse deliver nothing. The complete lines before the first
  sentinel deliver in order; when there is no sentinel among the complete lines, the
  piece after the last newline is flushed as a frame.
\<close>

definition isDoneLine :: "string \<Rightarrow> bool" where
  "isDoneLine l \<longleftrightarrow> trim l = ''data: [DONE]''"

definition lineChunks :: "(string \<Rightarrow> json option) \<Rightarrow> string \<Rightarrow> json list" where
  "lineChunks parse l =
     (if startsWith ''data: '' (trim l) \<and> \<not> isDoneLine l then deliver parse (drop 6 (trim l))
      else [])"

definition wholeTextChunks :: "(string \<Rightarrow> json option) \<Rightarrow> string \<Rightarrow> json list" where
  "wholeTextChunks parse text =
     (let pieces = split_nl text;
          complete = butlast pieces;
          leading = takeWhile (\<lambda>l. \<not> isDoneLine l) complete
      in concat (map (lineChunks parse) leading) @
         (if list_ex isDoneLine complete then [] else lineChunks parse (last pieces)))"

section \<open>Concrete states and inputs\<close>

definition selectionWitness :: LiveSelectionManager where
  "selectionWitness =
     \<lparr>currentSelection = Some \<lparr>content = ''abcd'', sourcePath = None, timestamp = 1\<rparr>,
      hasCallback = True, notified = 0\<rparr>"

definition providerWitness :: "string \<Rightarrow> AIProvider" where
  "providerWitness i =
     \<lparr>provider_id = i, provider_name = ''Provider'', baseUrl = ''https://api.test.com'',
      apiKey = ''key'', enabled = True, provider_type = OpenAI\<rparr>"

definition modelWitness :: "string \<Rightarrow> string \<Rightarrow> bool \<Rightarrow> AIModel" where
  "modelWitness i p d =
     \<lparr>model_id = i, model_name = ''Model'', providerId = p, modelIdentifier = ''gpt-4'',
      isDefault = d\<rparr>"

definition registryWitness :: PluginSettings where
  "registryWitness =
     DEFAULT_SETTINGS
       \<lparr>providers := [providerWitness ''p1'', providerWitness ''p2''],
        models := [modelWitness ''m1'' ''p1'' True, modelWitness ''m2'' ''p2'' False,
                   modelWitness ''m3'' ''p1'' False]\<rparr>"

definition callsWitness :: "RegistryCall list" where
  "callsWitness =
     [AddProvider \<lparr>pi_name = ''Provider'', pi_baseUrl = ''https://api.test.com'',
                   pi_apiKey = ''key'', pi_enabled = True, pi_type = OpenAI\<rparr> ''p1'',
      AddModel \<lparr>mi_name = ''A'', mi_providerId = ''p1'', mi_modelIdentifier = ''gpt-4'',
                mi_isDefault = True\<rparr> ''m1'',
      AddModel \<lparr>mi_name = ''B'', mi_providerId = ''p1'', mi_modelIdentifier = ''gpt-4o'',
                mi_isDefault = True\<rparr> ''m2'',
      SetDefaultModel ''m1'',
      UpdateModel ''m2'' \<lparr>mu_name = None, mu_providerId = None, mu_modelIdentifier = None,
                          mu_isDefault = Some True\<rparr>]"

definition sessionWitness :: "string \<Rightarrow> int \<Rightarrow> ChatSession" where
  "sessionWitness i t =
     \<lparr>session_id = i, messages = [], contextItems = [], currentModelId = ''m1'',
      createdAt = t, updatedAt = t\<rparr>"

definition chatWitness :: ChatStateManager where
  "chatWitness =
     \<lparr>chat_sessions =
        [sessionWitness ''s1'' 10, sessionWitness ''s2'' 20, sessionWitness ''s3'' 30,
         sessionWitness ''s4'' 40, sessionWitness ''s5'' 50, sessionWitness ''s6'' 60,
         sessionWitness ''s7'' 70, sessionWitness ''s8'' 80, sessionWitness ''s9'' 90,
         sessionWitness ''s10'' 100],
      chat_currentSessionId = Some ''s3''\<rparr>"

definition fileItemWitness :: ContextItem where
  "fileItemWitness =
     \<lparr>context_id = ''ctx-1'', context_type = File, path = Some ''notes/note.md'',
      context_content = ''hello'', displayName = ''note.md''\<rparr>"

text \<open>
  A stand-in for \<open>parseInt\<close> that knows the \<open>retry-after\<close> header of the responses
  below and nothing else.
\<close>

definition parseIntWitness :: "string \<Rightarrow> JSNumber" where
  "parseIntWitness s = (if s = ''30'' then Finite 30 else NaN)"

definition fetchWitness :: "int list \<Rightarrow> nat \<Rightarrow> FetchOutcome" where
  "fetchWitness codes k =
     (if k < length codes
      then Resolved \<lparr>ok = (200 \<le> codes ! k \<and> codes ! k \<le> 299), status = codes ! k,
                      retryAfterHeader = Some ''30''\<rparr>
      else OtherError)"

text \<open>The stream of the specification's example, its two frames and what they parse to.\<close>

definition frameHel :: string where
  \<open>frameHel = ''{"choices":[{"delta":{"content":"Hel"}}]}''\<close>

definition frameLo :: string where
  \<open>frameLo = ''{"choices":[{"delta":{"content":"lo"}}]}''\<close>

definition exampleStream :: string where
  "exampleStream =
     ''data: '' @ frameHel @ ''\<newline>\<newline>'' @ ''data: '' @ frameLo @ ''\<newline>\<newline>'' @
     ''data: [DONE]\<newline>\<newline>''"

definition contentDelta :: "string \<Rightarrow> json" where
  "contentDelta s =
     JObject [(''choices'', JArray [JObject [(''delta'', JObject [(''content'', JString s)])]])]"

text \<open>A parser that knows the two frames of the example and rejects everything else.\<close>

definition exampleParse :: "string \<Rightarrow> json option" where
  "exampleParse s =
     (if s = frameHel then Some (contentDelta ''Hel'')
      else if s = frameLo then Some (contentDelta ''lo'')
      else None)"

text \<open>The example stream cut in the middle of its first and of its third line.\<close>

definition exampleReads :: "string list" where
  "exampleReads =
     [take 20 exampleStream, take 50 (drop 20 exampleStream), drop 70 exampleStream]"

text \<open>A parser for which every frame carries an empty content delta.\<close>

definition emptyDeltaParse :: "string \<Rightarrow> json option" where
  "emptyDeltaParse s = Some (contentDelta [])"

section \<open>Live selection: theorems\<close>

text \<open>
  C8. A call of \<open>setSelection\<close> whose content trims to the empty string is a call of
  \<open>clearSelection\<close>: with no selection stored the manager is unchanged (nothing is
  notified), and with a selection stored the slot becomes empty and the registered
  callback is called exactly once.
\<close>

theorem setSelection_blank_is_clearSelection:
  "trim c = [] \<Longrightarrow>
     setSelection c sp now m = clearSelection m \<and>
     (currentSelection m = None \<longrightarrow> setSelection c sp now m = m) \<and>
     (currentSelection m \<noteq> None \<longrightarrow>
        currentSelection (setSelection c sp now m) = None \<and>
        notified (setSelection c sp now m) =
          (if hasCallback m then Suc (notified m) else notified m))"
  by (cases m) (simp add: setSelection_def clearSelection_def notifyChange_def Let_def)

theorem setSelection_blank_witness:
  "trim ''   '' = [] \<and>
   currentSelection (setSelection ''   '' None 2 selectionWitness) = None \<and>
   notified (setSelection ''   '' None 2 selectionWitness) = 1"
  using setSelection_blank_is_clearSelection [of "''   ''" None 2 selectionWitness]
  by (simp add: trim_def js_whitespace_def selectionWitness_def clearSelection_def
      notifyChange_def)

text \<open>
  For a content longer than \<open>maxLength\<close> the preview is the first \<open>maxLength - 3\<close>
  characters (none when \<open>maxLength\<close> is below 3) followed by \<open>...\<close>; its length is
  \<open>maxLength\<close> exactly when \<open>maxLength\<close> is at least 3, and 3 otherwise.
\<close>

lemma getPreview_shape:
  "currentSelection m = Some sel \<Longrightarrow>
     (int (length (content sel)) \<le> maxLength \<longrightarrow> getPreview m maxLength = content sel) \<and>
     (maxLength < int (length (content sel)) \<longrightarrow>
        getPreview m maxLength = take (nat (maxLength - 3)) (content sel) @ ''...'' \<and>
        int (length (getPreview m maxLength)) = max 3 maxLength)"
  by (auto simp add: getPreview_def substring0_def)

text \<open>
  C9. The code breaks the claim where \<open>maxLength\<close> is below 3: with the content \<open>abcd\<close>
  stored and \<open>maxLength = 2\<close> the content is longer than \<open>maxLength\<close>,
  \<open>substring(0, -1)\<close> is empty, and the preview is \<open>...\<close>: 3 characters, more than the
  maximum length asked for.
\<close>

theorem getPreview_exceeds_maxLength:
  "2 < int (length (content \<lparr>content = ''abcd'', sourcePath = None, timestamp = 1\<rparr>)) \<and>
   getPreview selectionWitness 2 = ''...'' \<and>
   int (length (getPreview selectionWitness 2)) = 3 \<and>
   int (length (getPreview selectionWitness 2)) \<noteq> 2"
  by (simp add: getPreview_def selectionWitness_def substring0_def)

section \<open>Settings manager: theorems\<close>

lemma findIndex_None: "findIndex P xs = None \<longleftrightarrow> (\<forall>x\<in>set xs. \<not> P x)"
  by (induction xs) auto

lemma findIndex_Some:
  "findIndex P xs = Some k \<Longrightarrow>
     k < length xs \<and> P (xs ! k) \<and> (\<forall>x\<in>set (take k xs). \<not> P x)"
proof (induction xs arbitrary: k)
  case Nil
  then show ?case by simp
next
  case (Cons x xs)
  show ?case
  proof (cases "P x")
    case True
    with Cons.prems show ?thesis by simp
  next
    case False
    with Cons.prems obtain j where j: "findIndex P xs = Some j" "k = Suc j"
      by auto
    from Cons.IH [OF j(1)] False j(2) show ?thesis by simp
  qed
qed

lemma splice1_split:
  "k < length xs \<Longrightarrow> xs = take k xs @ xs ! k # drop (Suc k) xs \<and> splice1 k xs = take k xs @ drop (Suc k) xs"
  by (simp add: splice1_def id_take_nth_drop [symmetric])

lemma filter_distinct_remove:
  assumes "distinct (map f (before @ p # after))"
  shows "filter (\<lambda>q. f q \<noteq> f p) (before @ p # after) = before @ after"
proof -
  from assms have "\<forall>q\<in>set before. f q \<noteq> f p" "\<forall>q\<in>set after. f q \<noteq> f p"
    by (auto simp: image_iff)
  then show ?thesis by simp
qed

text \<open>
  C7. \<open>deleteProvider(id)\<close> with an id no provider has returns \<open>false\<close> and the whole
  settings state is unchanged. Otherwise it returns \<open>true\<close>, removes the first provider
  with the id (the only one when provider ids are distinct, so that exactly the providers
  with another id remain, in order), keeps exactly the models whose \<open>providerId\<close> differs
  from the id, and changes nothing else.
\<close>

theorem deleteProvider_cascade:
  "(\<not> (\<exists>p\<in>set (providers s). provider_id p = i) \<longrightarrow> deleteProvider i s = (False, s)) \<and>
   ((\<exists>p\<in>set (providers s). provider_id p = i) \<longrightarrow>
      fst (deleteProvider i s) = True \<and>
      (\<exists>before p after.
         providers s = before @ p # after \<and> provider_id p = i \<and>
         (\<forall>q\<in>set before. provider_id q \<noteq> i) \<and>
         providers (snd (deleteProvider i s)) = before @ after) \<and>
      (distinct (map provider_id (providers s)) \<longrightarrow>
         providers (snd (deleteProvider i s)) =
           filter (\<lambda>p. provider_id p \<noteq> i) (providers s)) \<and>
      models (snd (deleteProvider i s)) = filter (\<lambda>m. providerId m \<noteq> i) (models s) \<and>
      sessions (snd (deleteProvider i s)) = sessions s \<and>
      currentSessionId (snd (deleteProvider i s)) = currentSessionId s \<and>
      maxHistorySize (snd (deleteProvider i s)) = maxHistorySize s \<and>
      streamingEnabled (snd (deleteProvider i s)) = streamingEnabled s)"
proof (cases "findIndex (\<lambda>p. provider_id p = i) (providers s)")
  case None
  then have "\<forall>p\<in>set (providers s). provider_id p \<noteq> i"
    by (simp add: findIndex_None)
  with None show ?thesis
    by (simp add: deleteProvider_def)
next
  case (Some k)
  let ?ps = "providers s"
  from findIndex_Some [OF Some]
  have k: "k < length ?ps" "provider_id (?ps ! k) = i"
    "\<forall>q\<in>set (take k ?ps). provider_id q \<noteq> i"
    by auto
  from splice1_split [OF k(1)]
  have split: "?ps = take k ?ps @ ?ps ! k # drop (Suc k) ?ps"
    and spl: "splice1 k ?ps = take k ?ps @ drop (Suc k) ?ps"
    by auto
  have ex: "\<exists>p\<in>set ?ps. provider_id p = i"
    using k(1,2) nth_mem by blast
  have res: "deleteProvider i s =
      (True, s\<lparr>providers := take k ?ps @ drop (Suc k) ?ps,
               models := filter (\<lambda>m. providerId m \<noteq> i) (models s)\<rparr>)"
    using Some spl by (simp add: deleteProvider_def)
  have dist: "distinct (map provider_id ?ps) \<Longrightarrow>
      filter (\<lambda>p. provider_id p \<noteq> i) ?ps = take k ?ps @ drop (Suc k) ?ps"
  proof -
    assume "distinct (map provider_id ?ps)"
    then have "distinct (map provider_id (take k ?ps @ ?ps ! k # drop (Suc k) ?ps))"
      using split by simp
    from filter_distinct_remove [OF this] show ?thesis
      using split k(2) by simp
  qed
  have "\<exists>before p after.
         ?ps = before @ p # after \<and> provider_id p = i \<and>
         (\<forall>q\<in>set before. provider_id q \<noteq> i) \<and>
         providers (snd (deleteProvider i s)) = before @ after"
    using split k(2,3) res
    by (intro exI [of _ "take k ?ps"] exI [of _ "?ps ! k"] exI [of _ "drop (Suc k) ?ps"]) simp
  with ex res dist show ?thesis by simp
qed

theorem deleteProvider_cascade_witness:
  "(\<exists>p\<in>set (providers registryWitness). provider_id p = ''p1'') \<and>
   distinct (map provider_id (providers registryWitness)) \<and>
   \<not> (\<exists>p\<in>set (providers registryWitness). provider_id p = ''p9'') \<and>
   deleteProvider ''p1'' registryWitness =
     (True, registryWitness\<lparr>providers := [providerWitness ''p2''],
                            models := [modelWitness ''m2'' ''p2'' False]\<rparr>) \<and>
   deleteProvider ''p9'' registryWitness = (False, registryWitness)"
  using deleteProvider_cascade [of registryWitness "''p1''"]
    deleteProvider_cascade [of registryWitness "''p9''"]
  by (simp add: registryWitness_def providerWitness_def modelWitness_def deleteProvider_def
      splice1_def)


lemma defaults_unset: "filter isDefault (unsetDefaults ms) = []"
  by (induction ms) (auto simp: unsetDefaults_def)

lemma count_filter_le: "length (filter (\<lambda>x. Q x \<and> P x) xs) \<le> length (filter P xs)"
  by (induction xs) auto

lemma count_splice1_le: "length (filter P (splice1 k xs)) \<le> length (filter P xs)"
proof (cases "k < length xs")
  case True
  from splice1_split [OF True]
  have "xs = take k xs @ xs ! k # drop (Suc k) xs"
    and "splice1 k xs = take k xs @ drop (Suc k) xs" by auto
  then have "length (filter P xs) =
      length (filter P (take k xs)) + length (filter P [xs ! k]) + length (filter P (drop (Suc k) xs))"
    by (metis append_Cons append_Nil filter_append length_append add.assoc)
  moreover have "length (filter P (splice1 k xs)) =
      length (filter P (take k xs)) + length (filter P (drop (Suc k) xs))"
    by (simp add: splice1_def)
  ultimately show ?thesis by simp
next
  case False
  then show ?thesis by (simp add: splice1_def)
qed

lemma count_update:
  assumes "k < length xs"
  shows "length (filter P (xs[k := y])) + (if P (xs ! k) then 1 else 0) =
         length (filter P xs) + (if P y then 1 else 0)"
proof -
  have a: "xs[k := y] = take k xs @ y # drop (Suc k) xs"
    using assms by (rule upd_conv_take_nth_drop)
  have b: "xs = take k xs @ xs ! k # drop (Suc k) xs"
    using assms by (rule id_take_nth_drop)
  have "length (filter P xs) =
      length (filter P (take k xs)) + (if P (xs ! k) then 1 else 0) + length (filter P (drop (Suc k) xs))"
    by (subst b) simp
  moreover have "length (filter P (xs[k := y])) =
      length (filter P (take k xs)) + (if P y then 1 else 0) + length (filter P (drop (Suc k) xs))"
    by (subst a) simp
  ultimately show ?thesis by simp
qed

lemma setDefaultModel_found:
  assumes "findIndex (\<lambda>m. model_id m = i) (models s) = Some k"
  shows "setDefaultModel i s =
           (True, s\<lparr>models := (unsetDefaults (models s))[k := (models s ! k)\<lparr>isDefault := True\<rparr>]\<rparr>)"
proof -
  from findIndex_Some [OF assms] have "k < length (models s)" by simp
  then have "unsetDefaults (models s) ! k = (models s ! k)\<lparr>isDefault := False\<rparr>"
    by (simp add: unsetDefaults_def)
  with assms show ?thesis by (simp add: setDefaultModel_def Let_def)
qed

lemma setDefaultModel_count:
  assumes "findIndex (\<lambda>m. model_id m = i) (models s) = Some k"
  shows "defaultCount (snd (setDefaultModel i s)) = 1"
proof -
  from findIndex_Some [OF assms] have k: "k < length (unsetDefaults (models s))"
    by (simp add: unsetDefaults_def)
  from count_update [OF k, of isDefault "(models s ! k)\<lparr>isDefault := True\<rparr>"] k
  show ?thesis
    by (simp add: setDefaultModel_found [OF assms] defaultCount_def defaults_unset
        unsetDefaults_def)
qed

lemma setDefaultModel_invariant: "defaultCount (snd (setDefaultModel i s)) \<le> max 1 (defaultCount s)"
proof (cases "findIndex (\<lambda>m. model_id m = i) (models s)")
  case None
  then show ?thesis by (simp add: setDefaultModel_def)
next
  case (Some k)
  from setDefaultModel_count [OF Some] show ?thesis by simp
qed

lemma addProvider_models: "models (snd (addProvider p newId s)) = models s"
  by (simp add: addProvider_def Let_def)

lemma deleteProvider_invariant: "defaultCount (snd (deleteProvider i s)) \<le> defaultCount s"
  by (simp add: deleteProvider_def defaultCount_def count_filter_le split: option.splits)

lemma deleteModel_invariant: "defaultCount (snd (deleteModel i s)) \<le> defaultCount s"
  by (simp add: deleteModel_def defaultCount_def count_splice1_le split: option.splits)

lemma addModel_invariant: "defaultCount (snd (addModel m newId s)) \<le> max 1 (defaultCount s)"
  by (simp add: addModel_def defaultCount_def defaults_unset Let_def)

lemma updateModel_invariant: "defaultCount (snd (updateModel i u s)) \<le> max 1 (defaultCount s)"
proof (cases "findIndex (\<lambda>m. model_id m = i) (models s)")
  case None
  then show ?thesis by (simp add: updateModel_def)
next
  case (Some k)
  from findIndex_Some [OF Some] have k: "k < length (models s)" by simp
  let ?um = "applyUpdates (models s ! k) u"
  have set_default: "length (filter isDefault ((unsetDefaults (models s))[k := ?um])) \<le> 1"
    using count_update [of k "unsetDefaults (models s)" isDefault ?um] k
    by (simp add: defaults_unset unsetDefaults_def split: if_splits)
  have keep: "mu_isDefault u \<noteq> Some True \<Longrightarrow>
      length (filter isDefault ((models s)[k := ?um])) \<le> length (filter isDefault (models s))"
  proof -
    assume "mu_isDefault u \<noteq> Some True"
    then have "isDefault ?um \<longrightarrow> isDefault (models s ! k)"
      by (cases "mu_isDefault u") (auto simp: applyUpdates_def)
    with count_update [OF k, of isDefault ?um] show ?thesis
      by (simp split: if_splits)
  qed
  from Some set_default keep show ?thesis
    by (auto simp add: updateModel_def defaultCount_def Let_def)
qed

lemma call_invariant: "defaultCount s \<le> 1 \<Longrightarrow> defaultCount (call c s) \<le> 1"
proof (cases c)
  case (AddProvider p newId)
  assume "defaultCount s \<le> 1"
  with AddProvider show ?thesis by (simp add: defaultCount_def addProvider_models)
next
  case (DeleteProvider i)
  assume "defaultCount s \<le> 1"
  with DeleteProvider deleteProvider_invariant [of i s] show ?thesis by simp
next
  case (AddModel m newId)
  assume "defaultCount s \<le> 1"
  with AddModel addModel_invariant [of m newId s] show ?thesis by simp
next
  case (UpdateModel i u)
  assume "defaultCount s \<le> 1"
  with UpdateModel updateModel_invariant [of i u s] show ?thesis by simp
next
  case (DeleteModel i)
  assume "defaultCount s \<le> 1"
  with DeleteModel deleteModel_invariant [of i s] show ?thesis by simp
next
  case (SetDefaultModel i)
  assume "defaultCount s \<le> 1"
  with SetDefaultModel setDefaultModel_invariant [of i s] show ?thesis by simp
qed

lemma calls_invariant: "defaultCount s \<le> 1 \<Longrightarrow> defaultCount (calls cs s) \<le> 1"
  unfolding calls_def
proof (induction cs arbitrary: s)
  case Nil
  then show ?case by simp
next
  case (Cons c cs)
  from Cons.IH [OF call_invariant [OF Cons.prems]] show ?case by simp
qed

text \<open>
  C5. \<open>setDefaultModel(id)\<close> with an id no model has returns \<open>false\<close> and the registry
  is unchanged. Otherwise it returns \<open>true\<close>, the first model with the id is the default
  and every other model is not, nothing else changes, and exactly one model is the
  default. Any sequence of registry calls (\<open>setDefaultModel\<close>, \<open>addModel\<close>,
  \<open>updateModel\<close>, also \<open>deleteModel\<close>, \<open>addProvider\<close>, \<open>deleteProvider\<close>) run from a
  registry with at most one default model, such as the empty default registry, leaves at
  most one default model.
\<close>

theorem setDefaultModel_single_default:
  "(\<not> (\<exists>m\<in>set (models s). model_id m = i) \<longrightarrow> setDefaultModel i s = (False, s)) \<and>
   ((\<exists>m\<in>set (models s). model_id m = i) \<longrightarrow>
      fst (setDefaultModel i s) = True \<and>
      (\<exists>k<length (models s).
         model_id (models s ! k) = i \<and>
         (\<forall>j<k. model_id (models s ! j) \<noteq> i) \<and>
         length (models (snd (setDefaultModel i s))) = length (models s) \<and>
         (\<forall>j<length (models s).
            models (snd (setDefaultModel i s)) ! j = (models s ! j)\<lparr>isDefault := (j = k)\<rparr>)) \<and>
      providers (snd (setDefaultModel i s)) = providers s \<and>
      defaultCount (snd (setDefaultModel i s)) = 1) \<and>
   (defaultCount s \<le> 1 \<longrightarrow> defaultCount (calls cs s) \<le> 1) \<and>
   defaultCount (calls cs DEFAULT_SETTINGS) \<le> 1"
proof -
  have inv: "defaultCount s \<le> 1 \<longrightarrow> defaultCount (calls cs s) \<le> 1"
    using calls_invariant by blast
  have fresh: "defaultCount (calls cs DEFAULT_SETTINGS) \<le> 1"
    by (rule calls_invariant) (simp add: defaultCount_def DEFAULT_SETTINGS_def)
  show ?thesis
  proof (cases "findIndex (\<lambda>m. model_id m = i) (models s)")
    case None
    then have "\<forall>m\<in>set (models s). model_id m \<noteq> i"
      by (simp add: findIndex_None)
    with None inv fresh show ?thesis
      by (simp add: setDefaultModel_def)
  next
    case (Some k)
    from findIndex_Some [OF Some]
    have k: "k < length (models s)" "model_id (models s ! k) = i"
      "\<forall>m\<in>set (take k (models s)). model_id m \<noteq> i"
      by auto
    have before: "\<forall>j<k. model_id (models s ! j) \<noteq> i"
    proof (intro allI impI)
      fix j assume "j < k"
      with k(1) have "models s ! j \<in> set (take k (models s))"
        by (metis length_take min.absorb2 less_imp_le nth_mem nth_take)
      with k(3) show "model_id (models s ! j) \<noteq> i" by blast
    qed
    have ex: "\<exists>m\<in>set (models s). model_id m = i"
      using k(1,2) nth_mem by blast
    note res = setDefaultModel_found [OF Some]
    have each: "\<forall>j<length (models s).
        models (snd (setDefaultModel i s)) ! j = (models s ! j)\<lparr>isDefault := (j = k)\<rparr>"
      using k(1) by (simp add: res unsetDefaults_def nth_list_update)
    have "\<exists>k<length (models s).
         model_id (models s ! k) = i \<and>
         (\<forall>j<k. model_id (models s ! j) \<noteq> i) \<and>
         length (models (snd (setDefaultModel i s))) = length (models s) \<and>
         (\<forall>j<length (models s).
            models (snd (setDefaultModel i s)) ! j = (models s ! j)\<lparr>isDefault := (j = k)\<rparr>)"
      using k(1,2) before each
      by (intro exI [of _ k]) (simp add: res unsetDefaults_def)
    with ex inv fresh setDefaultModel_count [OF Some] show ?thesis
      by (simp add: res)
  qed
qed

theorem setDefaultModel_single_default_witness:
  "(\<exists>m\<in>set (models registryWitness). model_id m = ''m2'') \<and>
   \<not> (\<exists>m\<in>set (models registryWitness). model_id m = ''m9'') \<and>
   defaultCount registryWitness \<le> 1 \<and>
   setDefaultModel ''m9'' registryWitness = (False, registryWitness) \<and>
   models (snd (setDefaultModel ''m2'' registryWitness)) =
     [modelWitness ''m1'' ''p1'' False, modelWitness ''m2'' ''p2'' True,
      modelWitness ''m3'' ''p1'' False] \<and>
   defaultCount (calls callsWitness registryWitness) \<le> 1 \<and>
   map isDefault (models (calls callsWitness DEFAULT_SETTINGS)) = [False, True]"
  using setDefaultModel_single_default [of registryWitness "''m2''" callsWitness]
    setDefaultModel_single_default [of registryWitness "''m9''" callsWitness]
  by (simp add: registryWitness_def providerWitness_def modelWitness_def setDefaultModel_def
      unsetDefaults_def defaultCount_def callsWitness_def calls_def addProvider_def
      addModel_def updateModel_def applyUpdates_def validateProvider_def validateModel_def
      blank_def trim_def js_whitespace_def DEFAULT_SETTINGS_def Let_def)


section \<open>Chat state manager: theorems\<close>

lemma sortByUpdatedAtDesc_sorted:
  "sorted_wrt (\<lambda>a b. updatedAt b \<le> updatedAt a) (sortByUpdatedAtDesc xs)"
proof -
  have "sorted (map (\<lambda>s. - updatedAt s) (sortByUpdatedAtDesc xs))"
    unfolding sortByUpdatedAtDesc_def by (rule sorted_sort_key)
  then show ?thesis by (simp add: sorted_map)
qed

lemma sortByUpdatedAtDesc_mset: "mset (sortByUpdatedAtDesc xs) = mset xs"
  by (simp add: sortByUpdatedAtDesc_def)

lemma sortByUpdatedAtDesc_stable:
  "filter (\<lambda>s. updatedAt s = t) (sortByUpdatedAtDesc xs) = filter (\<lambda>s. updatedAt s = t) xs"
proof -
  have "filter (\<lambda>s. - updatedAt s = - t) (sort_key (\<lambda>s. - updatedAt s) xs) =
        filter (\<lambda>s. - updatedAt s = - t) xs"
    by (rule sort_key_stable)
  then show ?thesis by (simp add: sortByUpdatedAtDesc_def)
qed

lemma sorted_wrt_take_drop:
  assumes "sorted_wrt R xs"
  shows "\<forall>k\<in>set (take n xs). \<forall>d\<in>set (drop n xs). R k d"
proof -
  from assms have "sorted_wrt R (take n xs @ drop n xs)" by simp
  then show ?thesis unfolding sorted_wrt_append by blast
qed

lemma sorted_wrt_hd:
  assumes "sorted_wrt R xs" and "\<And>x. R x x" and "y \<in> set xs"
  shows "R (hd xs) y"
  using assms by (cases xs) auto

text \<open>
  C6. When \<open>createSession\<close> brings the number of sessions above \<open>MAX_SESSIONS\<close>, the
  sessions kept are the first \<open>MAX_SESSIONS\<close> of all sessions sorted by \<open>updatedAt\<close>,
  greatest first (a stable rearrangement of all sessions); no dropped session is more
  recent than a kept one; and the current pointer stays on the new session when it is
  kept and otherwise moves to the first kept session, which has the greatest
  \<open>updatedAt\<close> of all.
\<close>

theorem createSession_prunes:
  "MAX_SESSIONS \<le> length (chat_sessions st) \<Longrightarrow> newId \<noteq> [] \<Longrightarrow>
     (let all = chat_sessions st @ [newSession mid newId now1 now2];
          ordered = sortByUpdatedAtDesc all;
          st' = snd (createSession mid newId now1 now2 st)
      in mset ordered = mset all \<and>
         sorted_wrt (\<lambda>a b. updatedAt b \<le> updatedAt a) ordered \<and>
         (\<forall>t. filter (\<lambda>s. updatedAt s = t) ordered = filter (\<lambda>s. updatedAt s = t) all) \<and>
         chat_sessions st' = take MAX_SESSIONS ordered \<and>
         length (chat_sessions st') = MAX_SESSIONS \<and>
         (\<forall>k\<in>set (chat_sessions st'). \<forall>d\<in>set (drop MAX_SESSIONS ordered).
            updatedAt d \<le> updatedAt k) \<and>
         (\<forall>s\<in>set all. updatedAt s \<le> updatedAt (hd (chat_sessions st'))) \<and>
         chat_currentSessionId st' =
           (if \<exists>s\<in>set (chat_sessions st'). session_id s = newId then Some newId
            else Some (session_id (hd (chat_sessions st')))))"
proof -
  assume len: "MAX_SESSIONS \<le> length (chat_sessions st)" and newId: "newId \<noteq> []"
  define all where "all = chat_sessions st @ [newSession mid newId now1 now2]"
  define ordered where "ordered = sortByUpdatedAtDesc all"
  define kept where "kept = take MAX_SESSIONS ordered"
  define st' where "st' = snd (createSession mid newId now1 now2 st)"
  have over: "MAX_SESSIONS < length all"
    using len by (simp add: all_def)
  have len_ordered: "length ordered = length all"
    by (simp add: ordered_def sortByUpdatedAtDesc_def)
  have len_kept: "length kept = MAX_SESSIONS"
    using over len_ordered by (simp add: kept_def)
  have kept_ne: "kept \<noteq> []" "0 < length kept"
    using len_kept by (auto simp: MAX_SESSIONS_def)
  have hd_kept: "hd kept = hd ordered" "kept ! 0 = hd kept"
    using kept_ne by (auto simp: kept_def hd_conv_nth MAX_SESSIONS_def)
  have sorted: "sorted_wrt (\<lambda>a b. updatedAt b \<le> updatedAt a) ordered"
    unfolding ordered_def by (rule sortByUpdatedAtDesc_sorted)
  have ms: "mset ordered = mset all"
    unfolding ordered_def by (rule sortByUpdatedAtDesc_mset)
  then have sets: "set ordered = set all"
    by (rule mset_eq_setD)
  have stable: "\<forall>t. filter (\<lambda>s. updatedAt s = t) ordered = filter (\<lambda>s. updatedAt s = t) all"
    by (simp add: ordered_def sortByUpdatedAtDesc_stable)
  have dropped: "\<forall>k\<in>set kept. \<forall>d\<in>set (drop MAX_SESSIONS ordered). updatedAt d \<le> updatedAt k"
    unfolding kept_def using sorted by (rule sorted_wrt_take_drop)
  have greatest: "\<forall>s\<in>set all. updatedAt s \<le> updatedAt (hd kept)"
    using sorted_wrt_hd [OF sorted] sets hd_kept(1) by auto
  have find_iff: "(find (\<lambda>s. Some (session_id s) = Some newId) kept = None) \<longleftrightarrow>
      \<not> (\<exists>s\<in>set kept. session_id s = newId)"
    by (auto simp: find_None_iff)
  have st'_eq: "st' = \<lparr>chat_sessions = kept,
      chat_currentSessionId =
        (if \<exists>s\<in>set kept. session_id s = newId then Some newId
         else Some (session_id (hd kept)))\<rparr>"
  proof -
    have "st' = pruneSessions \<lparr>chat_sessions = all, chat_currentSessionId = Some newId\<rparr>"
      by (simp add: st'_def createSession_def Let_def all_def)
    also have "\<dots> = \<lparr>chat_sessions = kept,
      chat_currentSessionId =
        (if \<exists>s\<in>set kept. session_id s = newId then Some newId
         else Some (session_id (hd kept)))\<rparr>"
      using over newId kept_ne(2) hd_kept(2) find_iff
      by (simp add: pruneSessions_def Let_def ordered_def [symmetric] kept_def [symmetric])
    finally show ?thesis .
  qed
  show ?thesis
    unfolding Let_def all_def [symmetric] ordered_def [symmetric] st'_def [symmetric]
    using ms sorted stable dropped greatest len_kept
    by (simp add: st'_eq kept_def [symmetric])
qed

theorem createSession_prunes_witness:
  "MAX_SESSIONS \<le> length (chat_sessions chatWitness) \<and> ''s11'' \<noteq> [] \<and>
   map session_id (chat_sessions (snd (createSession ''m1'' ''s11'' 5 5 chatWitness))) =
     [''s10'', ''s9'', ''s8'', ''s7'', ''s6'', ''s5'', ''s4'', ''s3'', ''s2'', ''s1''] \<and>
   chat_currentSessionId (snd (createSession ''m1'' ''s11'' 5 5 chatWitness)) = Some ''s10''"
  using createSession_prunes [of chatWitness "''s11''" "''m1''" 5 5]
  by (simp add: chatWitness_def sessionWitness_def MAX_SESSIONS_def createSession_def
      newSession_def pruneSessions_def sortByUpdatedAtDesc_def Let_def)

section \<open>Request build: theorems\<close>

lemma string_of_nat_digit: "n < 10 \<Longrightarrow> string_of_nat n = [digit_char n]"
  by (simp add: string_of_nat.simps)

text \<open>
  C4, as stated, fails: the message the client prepends does not carry the rendering of
  \<open>formatContextForAPI\<close>. For one file item the client renders
  \<open>Context:\n\n[note.md]\nhello\<close> where the context manager's formatter renders the
  \<open>--- File: notes/note.md ---\<close> block under its summary sentence.
\<close>

theorem prependContext_claim_counterexample:
  "message_content (hd (prependContext [] [fileItemWitness] 0 0)) = ''Context:\<newline>\<newline>[note.md]\<newline>hello'' \<and>
   formatContextForAPI [fileItemWitness] =
     ''The following context has been provided:\<newline>\<newline>--- File: notes/note.md ---\<newline>hello\<newline>--- End of notes/note.md ---'' \<and>
   message_content (hd (prependContext [] [fileItemWitness] 0 0)) \<noteq>
     formatContextForAPI [fileItemWitness]"
  by (simp add: prependContext_def contextContent_def formatContextForAPI_def
      formatFileContext_def fileItemWitness_def)

text \<open>
  C4, amended. For an empty list of context items \<open>prependContext\<close> returns the
  messages unchanged. For a non-empty list it prepends exactly one message, of role
  \<open>system\<close>, whose content is \<open>Context:\n\n\<close> followed by the items rendered as
  \<open>[displayName]\ncontent\<close> and joined by \<open>\n\n---\n\n\<close>; this is the client's own
  rendering and never that of \<open>formatContextForAPI\<close>.
\<close>

theorem prependContext_synthetic_message:
  "(items = [] \<longrightarrow> prependContext msgs items now1 now2 = msgs) \<and>
   (items \<noteq> [] \<longrightarrow>
      (\<exists>m. prependContext msgs items now1 now2 = m # msgs \<and>
           role m = System \<and>
           message_content m =
             ''Context:\<newline>\<newline>'' @
             join ''\<newline>\<newline>---\<newline>\<newline>''
               (map (\<lambda>item. ''['' @ displayName item @ '']\<newline>'' @ context_content item) items) \<and>
           message_id m = ''context-'' @ string_of_int now1 \<and>
           message_timestamp m = now2 \<and>
           message_content m \<noteq> formatContextForAPI items))"
  by (simp add: prependContext_def contextContent_def formatContextForAPI_def Let_def)

theorem prependContext_synthetic_message_witness:
  "[fileItemWitness] \<noteq> [] \<and>
   prependContext [] [fileItemWitness] 7 8 =
     [\<lparr>message_id = ''context-7'', role = System,
       message_content = ''Context:\<newline>\<newline>[note.md]\<newline>hello'',
       message_timestamp = 8, modelId = None\<rparr>] \<and>
   prependContext [] [] 7 8 = []"
  using prependContext_synthetic_message [of "[fileItemWitness]" "[]" 7 8]
    prependContext_synthetic_message [of "[]" "[]" 7 8]
  by (simp add: prependContext_def contextContent_def fileItemWitness_def string_of_int_def
      string_of_nat_digit digit_char_def)

section \<open>Dispatch with retry: theorems\<close>

lemma classifyError_server:
  "status r \<ge> 500 \<Longrightarrow> error_type (classifyError parseInt r) = Server"
  by (simp add: classifyError_def Let_def)

lemma loop_success:
  "attempt < MAX_RETRIES \<Longrightarrow> fetch attempt = Resolved r \<Longrightarrow> ok r \<Longrightarrow>
     makeRequest_loop parseInt fetch attempt lastError waited =
       \<lparr>outcome = Inr r, attempts = Suc attempt, delays = waited\<rparr>"
  by (subst makeRequest_loop.simps) simp

lemma loop_no_retry:
  "attempt < MAX_RETRIES \<Longrightarrow> fetch attempt = Resolved r \<Longrightarrow> \<not> ok r \<Longrightarrow>
   error_type (classifyError parseInt r) = Auth \<or>
   error_type (classifyError parseInt r) = RateLimit \<Longrightarrow>
     makeRequest_loop parseInt fetch attempt lastError waited =
       \<lparr>outcome = Inl (classifyError parseInt r), attempts = Suc attempt, delays = waited\<rparr>"
  by (subst makeRequest_loop.simps) (auto simp: Let_def)

lemma loop_retry:
  "Suc attempt < MAX_RETRIES \<Longrightarrow>
   serverOrTransportFailure (fetch attempt) \<or> unknownFailure parseInt (fetch attempt) \<Longrightarrow>
     makeRequest_loop parseInt fetch attempt lastError waited =
       makeRequest_loop parseInt fetch (Suc attempt) (Some (failureOf parseInt (fetch attempt)))
         (waited @ [BACKOFF_DELAYS ! attempt])"
  by (subst makeRequest_loop.simps)
    (auto simp: Let_def serverOrTransportFailure_def unknownFailure_def failureOf_def
      classifyError_server MAX_RETRIES_def split: FetchOutcome.splits)

lemma loop_last:
  "Suc attempt = MAX_RETRIES \<Longrightarrow> \<forall>r. fetch attempt = Resolved r \<longrightarrow> \<not> ok r \<Longrightarrow>
     makeRequest_loop parseInt fetch attempt lastError waited =
       \<lparr>outcome = Inl (failureOf parseInt (fetch attempt)), attempts = Suc attempt,
        delays = waited\<rparr>"
  by (subst makeRequest_loop.simps)
    (auto simp: Let_def failureOf_def split: FetchOutcome.splits)

lemma retried_not_ok:
  "serverOrTransportFailure x \<or> unknownFailure parseInt x \<Longrightarrow> \<forall>r. x = Resolved r \<longrightarrow> \<not> ok r"
  by (auto simp: serverOrTransportFailure_def unknownFailure_def)

lemma loop_attempts:
  "attempt < MAX_RETRIES \<Longrightarrow>
     attempt < attempts (makeRequest_loop parseInt fetch attempt lastError waited) \<and>
     attempts (makeRequest_loop parseInt fetch attempt lastError waited) \<le> MAX_RETRIES"
proof (induction parseInt fetch attempt lastError waited rule: makeRequest_loop.induct)
  case (1 parseInt fetch attempt lastError waited)
  note lt = "1.prems"
  show ?case
  proof (cases "attempt = MAX_RETRIES - 1")
    case True
    with lt show ?thesis
      by (subst (1 2) makeRequest_loop.simps)
        (auto simp: Let_def split: FetchOutcome.splits)
  next
    case False
    with lt have next_ok: "Suc attempt < MAX_RETRIES" by simp
    show ?thesis
    proof (cases "fetch attempt")
      case (Resolved r)
      show ?thesis
      proof (cases "\<not> ok r \<and> error_type (classifyError parseInt r) \<noteq> Auth \<and>
                    error_type (classifyError parseInt r) \<noteq> RateLimit")
        case True
        then have a: "\<not> ok r" and b: "error_type (classifyError parseInt r) \<noteq> Auth"
          and c: "error_type (classifyError parseInt r) \<noteq> RateLimit" by auto
        from "1.IH"(1) [OF lt Resolved a refl b c False next_ok] lt Resolved False a b c
        show ?thesis
          by (subst (1 2) makeRequest_loop.simps) (auto simp: Let_def)
      next
        case False
        with lt Resolved show ?thesis
          by (subst (1 2) makeRequest_loop.simps) (auto simp: Let_def)
      qed
    next
      case AbortError
      from "1.IH"(2) [OF lt AbortError False next_ok] lt AbortError False
      show ?thesis
        by (subst (1 2) makeRequest_loop.simps) (auto simp: Let_def)
    next
      case OtherError
      from "1.IH"(3) [OF lt OtherError False next_ok] lt OtherError False
      show ?thesis
        by (subst (1 2) makeRequest_loop.simps) (auto simp: Let_def)
    qed
  qed
qed

lemma backoff_values: "BACKOFF_DELAYS ! 0 = 1000" "BACKOFF_DELAYS ! Suc 0 = 2000"
  by (simp_all add: BACKOFF_DELAYS_def)

lemma first_retried:
  assumes "serverOrTransportFailure (fetch 0) \<or> unknownFailure parseInt (fetch 0)"
  shows "makeRequest parseInt fetch =
           makeRequest_loop parseInt fetch 1 (Some (failureOf parseInt (fetch 0))) [1000]"
  unfolding makeRequest_def
  using loop_retry [where attempt = 0 and fetch = fetch and parseInt = parseInt
      and lastError = None and waited = "[]"] assms
  by (simp add: MAX_RETRIES_def backoff_values)

lemma second_retried:
  assumes "serverOrTransportFailure (fetch 0) \<or> unknownFailure parseInt (fetch 0)"
    and "serverOrTransportFailure (fetch 1) \<or> unknownFailure parseInt (fetch 1)"
  shows "makeRequest parseInt fetch =
           makeRequest_loop parseInt fetch 2 (Some (failureOf parseInt (fetch 1))) [1000, 2000]"
  using loop_retry [where attempt = 1 and fetch = fetch and parseInt = parseInt
      and lastError = "Some (failureOf parseInt (fetch 0))" and waited = "[1000]"] assms(2)
  by (simp add: first_retried [where fetch = fetch and parseInt = parseInt, OF assms(1)] MAX_RETRIES_def backoff_values numeral_2_eq_2)

lemma third_fails:
  assumes "serverOrTransportFailure (fetch 0) \<or> unknownFailure parseInt (fetch 0)"
    and "serverOrTransportFailure (fetch 1) \<or> unknownFailure parseInt (fetch 1)"
    and "\<forall>r. fetch 2 = Resolved r \<longrightarrow> \<not> ok r"
  shows "makeRequest parseInt fetch =
           \<lparr>outcome = Inl (failureOf parseInt (fetch 2)), attempts = 3, delays = [1000, 2000]\<rparr>"
  using loop_last [where attempt = 2 and fetch = fetch and parseInt = parseInt
      and lastError = "Some (failureOf parseInt (fetch 1))" and waited = "[1000, 2000]"] assms(3)
  by (simp add: second_retried [where fetch = fetch and parseInt = parseInt, OF assms(1,2)] MAX_RETRIES_def)

lemma three_failures:
  assumes "serverOrTransportFailure (fetch 0) \<or> unknownFailure parseInt (fetch 0)"
    and "serverOrTransportFailure (fetch 1) \<or> unknownFailure parseInt (fetch 1)"
    and "serverOrTransportFailure (fetch 2) \<or> unknownFailure parseInt (fetch 2)"
  shows "makeRequest parseInt fetch =
           \<lparr>outcome = Inl (failureOf parseInt (fetch 2)), attempts = 3, delays = [1000, 2000]\<rparr>"
  using third_fails [where fetch = fetch and parseInt = parseInt, OF assms(1,2)]
    retried_not_ok [OF assms(3)]
  by blast

lemma failure_then_success:
  assumes "serverOrTransportFailure (fetch 0) \<or> unknownFailure parseInt (fetch 0)"
    and "fetch 1 = Resolved r" and "ok r"
  shows "makeRequest parseInt fetch = \<lparr>outcome = Inr r, attempts = 2, delays = [1000]\<rparr>"
  using loop_success [where attempt = 1 and fetch = fetch and parseInt = parseInt and r = r
      and lastError = "Some (failureOf parseInt (fetch 0))" and waited = "[1000]"] assms(2,3)
  by (simp add: first_retried [where fetch = fetch and parseInt = parseInt, OF assms(1)] MAX_RETRIES_def)

lemma failure_then_no_retry:
  assumes "serverOrTransportFailure (fetch 0) \<or> unknownFailure parseInt (fetch 0)"
    and "fetch 1 = Resolved r" and "\<not> ok r"
    and "error_type (classifyError parseInt r) = Auth \<or>
         error_type (classifyError parseInt r) = RateLimit"
  shows "makeRequest parseInt fetch =
           \<lparr>outcome = Inl (classifyError parseInt r), attempts = 2, delays = [1000]\<rparr>"
  using loop_no_retry [where attempt = 1 and fetch = fetch and parseInt = parseInt and r = r
      and lastError = "Some (failureOf parseInt (fetch 0))" and waited = "[1000]"] assms(2,3,4)
  by (simp add: first_retried [where fetch = fetch and parseInt = parseInt, OF assms(1)] MAX_RETRIES_def)

lemma two_failures_then_success:
  assumes "serverOrTransportFailure (fetch 0) \<or> unknownFailure parseInt (fetch 0)"
    and "serverOrTransportFailure (fetch 1) \<or> unknownFailure parseInt (fetch 1)"
    and "fetch 2 = Resolved r" and "ok r"
  shows "makeRequest parseInt fetch =
           \<lparr>outcome = Inr r, attempts = 3, delays = [1000, 2000]\<rparr>"
  using loop_success [where attempt = 2 and fetch = fetch and parseInt = parseInt and r = r
      and lastError = "Some (failureOf parseInt (fetch 1))" and waited = "[1000, 2000]"]
    assms(3,4)
  by (simp add: second_retried [where fetch = fetch and parseInt = parseInt, OF assms(1,2)] MAX_RETRIES_def)




text \<open>
  C3, as stated, fails: three responses 404, each classified \<open>unknown\<close>, cost 3 calls
  of \<open>fetch\<close>, not 1.
\<close>

theorem makeRequest_unknown_counterexample:
  "unknownFailure parseIntWitness (fetchWitness [404, 404, 404] 0) \<and>
   attempts (makeRequest parseIntWitness (fetchWitness [404, 404, 404])) = 3 \<and>
   attempts (makeRequest parseIntWitness (fetchWitness [404, 404, 404])) \<noteq> 1"
proof -
  have u: "unknownFailure parseIntWitness (fetchWitness [404, 404, 404] 0)"
    "unknownFailure parseIntWitness (fetchWitness [404, 404, 404] 1)"
    "unknownFailure parseIntWitness (fetchWitness [404, 404, 404] 2)"
    by (simp_all add: unknownFailure_def fetchWitness_def classifyError_def Let_def)
  with three_failures [of "fetchWitness [404, 404, 404]" parseIntWitness]
  show ?thesis by simp
qed

text \<open>
  C3, amended. A first response that is not ok and is classified \<open>unknown\<close> is retried
  like a server error: 1000 ms later a second call of \<open>fetch\<close> is made (of at most 3
  in all). An ok response to the second call is returned; a second response of type
  \<open>auth\<close> or \<open>rate_limit\<close> is thrown after 2 calls. When the second call fails with
  a retried error too (\<open>unknown\<close>, a status of 500 or more, or a transport failure), a
  third call is made: its ok response is returned, and otherwise the error of the third
  call is thrown after exactly 3 calls; that error is of type \<open>unknown\<close> when all
  three responses are classified \<open>unknown\<close>.
\<close>

theorem makeRequest_retries_unknown:
  "unknownFailure parseInt (fetch 0) \<Longrightarrow>
     2 \<le> attempts (makeRequest parseInt fetch) \<and>
     attempts (makeRequest parseInt fetch) \<le> 3 \<and>
     (\<forall>r. fetch 1 = Resolved r \<and> ok r \<longrightarrow>
        makeRequest parseInt fetch = \<lparr>outcome = Inr r, attempts = 2, delays = [1000]\<rparr>) \<and>
     (\<forall>r. fetch 1 = Resolved r \<and> \<not> ok r \<and>
          (error_type (classifyError parseInt r) = Auth \<or>
           error_type (classifyError parseInt r) = RateLimit) \<longrightarrow>
        makeRequest parseInt fetch =
          \<lparr>outcome = Inl (classifyError parseInt r), attempts = 2, delays = [1000]\<rparr>) \<and>
     (serverOrTransportFailure (fetch 1) \<or> unknownFailure parseInt (fetch 1) \<longrightarrow>
        (\<forall>r. fetch 2 = Resolved r \<and> ok r \<longrightarrow>
           makeRequest parseInt fetch =
             \<lparr>outcome = Inr r, attempts = 3, delays = [1000, 2000]\<rparr>) \<and>
        ((\<forall>r. fetch 2 = Resolved r \<longrightarrow> \<not> ok r) \<longrightarrow>
           makeRequest parseInt fetch =
             \<lparr>outcome = Inl (failureOf parseInt (fetch 2)), attempts = 3,
              delays = [1000, 2000]\<rparr>)) \<and>
     (unknownFailure parseInt (fetch 1) \<and> unknownFailure parseInt (fetch 2) \<longrightarrow>
        makeRequest parseInt fetch =
          \<lparr>outcome = Inl (failureOf parseInt (fetch 2)), attempts = 3,
           delays = [1000, 2000]\<rparr> \<and>
        error_type (failureOf parseInt (fetch 2)) = Unknown)"
proof -
  let ?run = "makeRequest parseInt fetch"
  assume "unknownFailure parseInt (fetch 0)"
  then have u: "serverOrTransportFailure (fetch 0) \<or> unknownFailure parseInt (fetch 0)"
    by simp
  have bounds: "2 \<le> attempts ?run \<and> attempts ?run \<le> 3"
    using loop_attempts [where attempt = 1 and fetch = fetch and parseInt = parseInt
        and lastError = "Some (failureOf parseInt (fetch 0))" and waited = "[1000]"]
    by (simp add: first_retried [where fetch = fetch and parseInt = parseInt, OF u] MAX_RETRIES_def)
  have success: "\<forall>r. fetch 1 = Resolved r \<and> ok r \<longrightarrow>
        ?run = \<lparr>outcome = Inr r, attempts = 2, delays = [1000]\<rparr>"
    using failure_then_success [where fetch = fetch and parseInt = parseInt, OF u] by blast
  have refused: "\<forall>r. fetch 1 = Resolved r \<and> \<not> ok r \<and>
          (error_type (classifyError parseInt r) = Auth \<or>
           error_type (classifyError parseInt r) = RateLimit) \<longrightarrow>
        ?run = \<lparr>outcome = Inl (classifyError parseInt r), attempts = 2, delays = [1000]\<rparr>"
    using failure_then_no_retry [where fetch = fetch and parseInt = parseInt, OF u] by blast
  have third: "serverOrTransportFailure (fetch 1) \<or> unknownFailure parseInt (fetch 1) \<longrightarrow>
        (\<forall>r. fetch 2 = Resolved r \<and> ok r \<longrightarrow>
           ?run = \<lparr>outcome = Inr r, attempts = 3, delays = [1000, 2000]\<rparr>) \<and>
        ((\<forall>r. fetch 2 = Resolved r \<longrightarrow> \<not> ok r) \<longrightarrow>
           ?run = \<lparr>outcome = Inl (failureOf parseInt (fetch 2)), attempts = 3,
                   delays = [1000, 2000]\<rparr>)"
    using two_failures_then_success [where fetch = fetch and parseInt = parseInt, OF u] third_fails [where fetch = fetch and parseInt = parseInt, OF u] by blast
  have all_unknown: "unknownFailure parseInt (fetch 1) \<and> unknownFailure parseInt (fetch 2) \<longrightarrow>
        ?run = \<lparr>outcome = Inl (failureOf parseInt (fetch 2)), attempts = 3,
                delays = [1000, 2000]\<rparr> \<and>
        error_type (failureOf parseInt (fetch 2)) = Unknown"
  proof
    assume h: "unknownFailure parseInt (fetch 1) \<and> unknownFailure parseInt (fetch 2)"
    then have "error_type (failureOf parseInt (fetch 2)) = Unknown"
      by (auto simp: unknownFailure_def failureOf_def split: FetchOutcome.splits)
    with three_failures [of fetch parseInt] u h
    show "?run = \<lparr>outcome = Inl (failureOf parseInt (fetch 2)), attempts = 3,
                delays = [1000, 2000]\<rparr> \<and>
        error_type (failureOf parseInt (fetch 2)) = Unknown"
      by blast
  qed
  from bounds success refused third all_unknown show ?thesis by blast
qed

lemma string_of_int_404: "string_of_int 404 = ''404''"
  by (simp add: string_of_int_def string_of_nat.simps digit_char_def)


theorem makeRequest_retries_unknown_witness:
  "unknownFailure parseIntWitness (fetchWitness [404, 404, 404] 0) \<and>
   makeRequest parseIntWitness (fetchWitness [404, 404, 404]) =
     \<lparr>outcome = Inl \<lparr>error_message = ''API error: 404'', error_type = Unknown,
                     statusCode = Some 404, retryAfter = None\<rparr>,
      attempts = 3, delays = [1000, 2000]\<rparr> \<and>
   makeRequest parseIntWitness (fetchWitness [404, 200]) =
     \<lparr>outcome = Inr \<lparr>ok = True, status = 200, retryAfterHeader = Some ''30''\<rparr>,
      attempts = 2, delays = [1000]\<rparr> \<and>
   makeRequest parseIntWitness (fetchWitness [404, 503, 200]) =
     \<lparr>outcome = Inr \<lparr>ok = True, status = 200, retryAfterHeader = Some ''30''\<rparr>,
      attempts = 3, delays = [1000, 2000]\<rparr> \<and>
   attempts (makeRequest parseIntWitness (fetchWitness [404, 401])) = 2 \<and>
   makeRequest parseIntWitness (fetchWitness [404, 404]) =
     \<lparr>outcome = Inl networkError, attempts = 3, delays = [1000, 2000]\<rparr>"
proof -
  let ?ok = "\<lparr>ok = True, status = 200, retryAfterHeader = Some ''30''\<rparr>"
  have u: "unknownFailure parseIntWitness (fetchWitness [404, 404, 404] 0)"
    "unknownFailure parseIntWitness (fetchWitness [404, 404, 404] 1)"
    "unknownFailure parseIntWitness (fetchWitness [404, 404, 404] 2)"
    "unknownFailure parseIntWitness (fetchWitness [404, 200] 0)"
    "unknownFailure parseIntWitness (fetchWitness [404, 503, 200] 0)"
    "unknownFailure parseIntWitness (fetchWitness [404, 401] 0)"
    "unknownFailure parseIntWitness (fetchWitness [404, 404] 0)"
    "unknownFailure parseIntWitness (fetchWitness [404, 404] 1)"
    by (simp_all add: fetchWitness_def unknownFailure_def classifyError_def)
  have f: "failureOf parseIntWitness (fetchWitness [404, 404, 404] 2) =
      \<lparr>error_message = ''API error: 404'', error_type = Unknown,
       statusCode = Some 404, retryAfter = None\<rparr>"
    by (simp add: fetchWitness_def failureOf_def classifyError_def string_of_int_404)
  have s: "fetchWitness [404, 200] 1 = Resolved ?ok"
    "serverOrTransportFailure (fetchWitness [404, 503, 200] 1)"
    "fetchWitness [404, 503, 200] 2 = Resolved ?ok"
    by (simp_all add: fetchWitness_def serverOrTransportFailure_def)
  have r: "fetchWitness [404, 401] 1 =
      Resolved \<lparr>ok = False, status = 401, retryAfterHeader = Some ''30''\<rparr>"
    "error_type (classifyError parseIntWitness
       \<lparr>ok = False, status = 401, retryAfterHeader = Some ''30''\<rparr>) = Auth"
    by (simp_all add: fetchWitness_def classifyError_def)
  have n: "\<forall>r. fetchWitness [404, 404] 2 = Resolved r \<longrightarrow> \<not> ok r"
    "failureOf parseIntWitness (fetchWitness [404, 404] 2) = networkError"
    by (simp_all add: fetchWitness_def failureOf_def)
  from makeRequest_retries_unknown [of parseIntWitness "fetchWitness [404, 404, 404]", OF u(1)]
    u(2,3) f
  have a: "makeRequest parseIntWitness (fetchWitness [404, 404, 404]) =
     \<lparr>outcome = Inl \<lparr>error_message = ''API error: 404'', error_type = Unknown,
                     statusCode = Some 404, retryAfter = None\<rparr>,
      attempts = 3, delays = [1000, 2000]\<rparr>"
    by simp
  from makeRequest_retries_unknown [of parseIntWitness "fetchWitness [404, 200]", OF u(4)] s(1)
  have b: "makeRequest parseIntWitness (fetchWitness [404, 200]) =
     \<lparr>outcome = Inr ?ok, attempts = 2, delays = [1000]\<rparr>"
    by simp
  from makeRequest_retries_unknown [of parseIntWitness "fetchWitness [404, 503, 200]", OF u(5)]
    s(2,3)
  have c: "makeRequest parseIntWitness (fetchWitness [404, 503, 200]) =
     \<lparr>outcome = Inr ?ok, attempts = 3, delays = [1000, 2000]\<rparr>"
    by simp
  from makeRequest_retries_unknown [of parseIntWitness "fetchWitness [404, 401]", OF u(6)] r
  have d: "attempts (makeRequest parseIntWitness (fetchWitness [404, 401])) = 2"
    by simp
  from makeRequest_retries_unknown [of parseIntWitness "fetchWitness [404, 404]", OF u(7)]
    u(8) n
  have e: "makeRequest parseIntWitness (fetchWitness [404, 404]) =
     \<lparr>outcome = Inl networkError, attempts = 3, delays = [1000, 2000]\<rparr>"
    by simp
  from u(1) a b c d e show ?thesis by blast
qed

section \<open>Streaming responses: theorems\<close>

lemma split_nl_nonempty: "split_nl s \<noteq> []"
  by (induction s) (auto split: list.splits)

lemma split_nl_no_newline: "CHR ''\<newline>'' \<notin> set s \<Longrightarrow> split_nl s = [s]"
  by (induction s) auto

lemma split_nl_pieces: "l \<in> set (split_nl s) \<Longrightarrow> CHR ''\<newline>'' \<notin> set l"
proof (induction s arbitrary: l)
  case Nil
  then show ?case by simp
next
  case (Cons c cs)
  show ?case
  proof (cases "c = CHR ''\<newline>''")
    case True
    with Cons show ?thesis by auto
  next
    case False
    obtain x xs where x: "split_nl cs = x # xs"
      using split_nl_nonempty [of cs] by (cases "split_nl cs") auto
    with Cons.prems False have "l = c # x \<or> l \<in> set xs" by simp
    with Cons.IH x False show ?thesis by auto
  qed
qed

lemma split_nl_last: "CHR ''\<newline>'' \<notin> set (last (split_nl s))"
  using split_nl_pieces [of "last (split_nl s)" s] split_nl_nonempty [of s] by simp

lemma split_nl_append:
  "split_nl (a @ b) = butlast (split_nl a) @ split_nl (last (split_nl a) @ b)"
proof (induction a)
  case Nil
  then show ?case by simp
next
  case (Cons c cs)
  obtain x xs where x: "split_nl cs = x # xs"
    using split_nl_nonempty [of cs] by (cases "split_nl cs") auto
  show ?case
  proof (cases "c = CHR ''\<newline>''")
    case True
    with Cons x show ?thesis by simp
  next
    case False
    show ?thesis
    proof (cases xs)
      case Nil
      with Cons x False show ?thesis by simp
    next
      case (Cons y ys)
      with Cons.IH x False show ?thesis by simp
    qed
  qed
qed

lemma processLine_lineChunks:
  "processLine parse l = (if isDoneLine l then None else Some (lineChunks parse l))"
proof -
  have "startsWith ''data: '' (trim l) \<and> drop 6 (trim l) = ''[DONE]'' \<longleftrightarrow>
        trim l = ''data: [DONE]''"
  proof
    assume h: "startsWith ''data: '' (trim l) \<and> drop 6 (trim l) = ''[DONE]''"
    have "length ''data: '' = 6" by simp
    with h have "take 6 (trim l) = ''data: ''" and "drop 6 (trim l) = ''[DONE]''"
      unfolding startsWith_def by (simp_all only:)
    then have "take 6 (trim l) @ drop 6 (trim l) = ''data: '' @ ''[DONE]''"
      by (simp only:)
    then show "trim l = ''data: [DONE]''"
      by (simp only: append_take_drop_id) simp
  next
    assume "trim l = ''data: [DONE]''"
    then show "startsWith ''data: '' (trim l) \<and> drop 6 (trim l) = ''[DONE]''"
      by (simp add: startsWith_def)
  qed
  then show ?thesis
    by (auto simp: processLine_def lineChunks_def isDoneLine_def Let_def startsWith_def)
qed

lemma flushBuffer_lineChunks: "flushBuffer parse b = lineChunks parse b"
  using processLine_lineChunks [of parse b]
  by (auto simp: flushBuffer_def processLine_def lineChunks_def Let_def split: if_splits)

lemma processLines_append:
  "processLines parse (xs @ ys) =
     (if snd (processLines parse xs) then (fst (processLines parse xs), True)
      else (fst (processLines parse xs) @ fst (processLines parse ys),
            snd (processLines parse ys)))"
  by (induction xs) (auto split: option.splits prod.splits)

lemma processLines_leading:
  "processLines parse ls =
     (concat (map (lineChunks parse) (takeWhile (\<lambda>l. \<not> isDoneLine l) ls)),
      list_ex isDoneLine ls)"
  by (induction ls) (auto simp: processLine_lineChunks split: prod.splits)

lemma wholeTextChunks_processLines:
  "wholeTextChunks parse text =
     (if snd (processLines parse (butlast (split_nl text)))
      then fst (processLines parse (butlast (split_nl text)))
      else fst (processLines parse (butlast (split_nl text))) @
           flushBuffer parse (last (split_nl text)))"
  by (simp add: wholeTextChunks_def processLines_leading flushBuffer_lineChunks Let_def)

lemma readLoop_whole:
  "CHR ''\<newline>'' \<notin> set buffer \<Longrightarrow>
     chunks (readLoop parse buffer vs) = wholeTextChunks parse (buffer @ concat vs) \<and>
     sawDone (readLoop parse buffer vs) =
       snd (processLines parse (butlast (split_nl (buffer @ concat vs))))"
proof (induction vs arbitrary: buffer)
  case Nil
  then show ?case
    by (simp add: wholeTextChunks_processLines split_nl_no_newline)
next
  case (Cons v vs)
  let ?lines = "split_nl (buffer @ v)"
  let ?rest = "split_nl (last ?lines @ concat vs)"
  have sp: "split_nl (buffer @ v @ concat vs) = butlast ?lines @ ?rest"
    using split_nl_append [of "buffer @ v" "concat vs"] by simp
  have bl: "butlast (butlast ?lines @ ?rest) = butlast ?lines @ butlast ?rest"
    and la: "last (butlast ?lines @ ?rest) = last ?rest"
    using split_nl_nonempty [of "last ?lines @ concat vs"]
    by (simp_all add: butlast_append)
  note IH = Cons.IH [OF split_nl_last [of "buffer @ v"]]
  obtain cs d where pl: "processLines parse (butlast ?lines) = (cs, d)"
    by (cases "processLines parse (butlast ?lines)") auto
  show ?case
  proof (cases d)
    case True
    with pl show ?thesis
      by (simp add: wholeTextChunks_processLines sp bl la processLines_append Let_def)
  next
    case False
    with pl IH show ?thesis
      by (simp add: wholeTextChunks_processLines sp bl la processLines_append Let_def)
  qed
qed

lemma readLoop_after_done:
  "sawDone (readLoop parse buffer vs) \<Longrightarrow>
     readLoop parse buffer (vs @ ws) = readLoop parse buffer vs"
  by (induction vs arbitrary: buffer) (auto simp: Let_def split: prod.splits if_splits)

lemma readLoop_reads: "reads (readLoop parse buffer vs) \<le> length vs"
  by (induction vs arbitrary: buffer) (auto simp: Let_def split: prod.splits)

lemma split_nl_exampleStream:
  "split_nl exampleStream =
     [''data: '' @ frameHel, [], ''data: '' @ frameLo, [], ''data: [DONE]'', [], []]"
  by (simp add: exampleStream_def frameHel_def frameLo_def)

lemma trim_frames:
  "trim (''data: '' @ frameHel) = ''data: '' @ frameHel"
  "trim (''data: '' @ frameLo) = ''data: '' @ frameLo"
  "trim ''data: [DONE]'' = ''data: [DONE]''"
  "trim [] = []"
  by (simp_all add: trim_def js_whitespace_def frameHel_def frameLo_def)

lemma deliver_contentDelta:
  "parse d = Some (contentDelta s) \<Longrightarrow> s \<noteq> [] \<Longrightarrow> deliver parse d = [JString s]"
  by (simp add: deliver_def extractStreamContent_def choicesDeltaContent_def contentDelta_def)

lemma lineChunks_frame:
  assumes "trim l = ''data: '' @ d" and "d \<noteq> ''[DONE]''"
  shows "lineChunks parse l = deliver parse d"
  using assms by (simp add: lineChunks_def isDoneLine_def startsWith_def)

lemma frames_not_done: "frameHel \<noteq> ''[DONE]''" "frameLo \<noteq> ''[DONE]''"
  by (simp_all add: frameHel_def frameLo_def)

lemma wholeTextChunks_exampleStream:
  assumes "parse frameHel = Some (contentDelta ''Hel'')"
    and "parse frameLo = Some (contentDelta ''lo'')"
  shows "wholeTextChunks parse exampleStream = [JString ''Hel'', JString ''lo'']"
proof -
  have hel: "lineChunks parse (''data: '' @ frameHel) = [JString ''Hel'']"
    using lineChunks_frame [OF trim_frames(1) frames_not_done(1), of parse]
      deliver_contentDelta [of parse frameHel "''Hel''"] assms(1) by simp
  have lo: "lineChunks parse (''data: '' @ frameLo) = [JString ''lo'']"
    using lineChunks_frame [OF trim_frames(2) frames_not_done(2), of parse]
      deliver_contentDelta [of parse frameLo "''lo''"] assms(2) by simp
  have blank: "lineChunks parse [] = []"
    by (simp add: lineChunks_def trim_frames(4) startsWith_def)
  have nd: "\<not> isDoneLine (''data: '' @ frameHel)" "\<not> isDoneLine (''data: '' @ frameLo)"
    "\<not> isDoneLine []" "isDoneLine ''data: [DONE]''"
    by (simp_all add: isDoneLine_def trim_def js_whitespace_def frameHel_def frameLo_def)
  have tw: "takeWhile (\<lambda>l. \<not> isDoneLine l)
      [''data: '' @ frameHel, [], ''data: '' @ frameLo, [], ''data: [DONE]'', []] =
      [''data: '' @ frameHel, [], ''data: '' @ frameLo, []]"
    using nd by (simp del: append.simps)
  have ex: "list_ex isDoneLine
      [''data: '' @ frameHel, [], ''data: '' @ frameLo, [], ''data: [DONE]'', []]"
    using nd by (simp del: append.simps)
  have bl: "butlast [''data: '' @ frameHel, [], ''data: '' @ frameLo, [], ''data: [DONE]'', [], []] =
      [''data: '' @ frameHel, [], ''data: '' @ frameLo, [], ''data: [DONE]'', []]"
    by simp
  show ?thesis
    unfolding wholeTextChunks_def split_nl_exampleStream Let_def bl tw
    using hel lo blank ex by (simp del: append.simps)
qed

lemma lineChunks_length: "length (lineChunks parse l) \<le> 1"
  by (simp add: lineChunks_def deliver_def split: option.splits)

lemma lineChunks_blank: "trim l = [] \<Longrightarrow> lineChunks parse l = []"
  by (simp add: lineChunks_def startsWith_def)

lemma lineChunks_malformed: "parse (drop 6 (trim l)) = None \<Longrightarrow> lineChunks parse l = []"
  by (simp add: lineChunks_def deliver_def)

text \<open>
  C1. For every parser and every sequence of reads, \<open>handleStreamResponse\<close> returns, and
  the calls of \<open>onChunk\<close> it makes are those of the specification's parse of the whole
  text: one per delta of the complete lines before the first \<open>[DONE]\<close> line, in order,
  followed by the flush of the piece after the last newline when no \<open>[DONE]\<close> line was
  met. So the calls depend only on the concatenation of the reads, not on where the
  reads cut it (an incomplete line is held back, never parsed); once it has returned at
  \<open>[DONE]\<close> no later read changes anything; a line delivers at most one chunk, a blank
  line and a line whose data fails to parse deliver none; and for the example stream of
  the specification, cut anywhere, the calls are exactly \<open>Hel\<close> then \<open>lo\<close>.
\<close>

theorem handleStreamResponse_stream_order:
  "handleStreamResponse parse (Some vs) = Inr (readLoop parse [] vs) \<and>
   chunks (readLoop parse [] vs) = wholeTextChunks parse (concat vs) \<and>
   (\<forall>ws. concat ws = concat vs \<longrightarrow>
      chunks (readLoop parse [] ws) = chunks (readLoop parse [] vs)) \<and>
   sawDone (readLoop parse [] vs) = list_ex isDoneLine (butlast (split_nl (concat vs))) \<and>
   (sawDone (readLoop parse [] vs) \<longrightarrow>
      (\<forall>more. readLoop parse [] (vs @ more) = readLoop parse [] vs)) \<and>
   reads (readLoop parse [] vs) \<le> length vs \<and>
   (\<forall>l. length (lineChunks parse l) \<le> 1 \<and>
        (trim l = [] \<longrightarrow> lineChunks parse l = []) \<and>
        (parse (drop 6 (trim l)) = None \<longrightarrow> lineChunks parse l = [])) \<and>
   (parse frameHel = Some (contentDelta ''Hel'') \<and> parse frameLo = Some (contentDelta ''lo'') \<and>
    concat vs = exampleStream \<longrightarrow>
      chunks (readLoop parse [] vs) = [JString ''Hel'', JString ''lo''] \<and>
      sawDone (readLoop parse [] vs))"
proof -
  have whole: "\<And>ws. chunks (readLoop parse [] ws) = wholeTextChunks parse (concat ws)"
    and sd: "\<And>ws. sawDone (readLoop parse [] ws) =
        list_ex isDoneLine (butlast (split_nl (concat ws)))"
    using readLoop_whole [of "[]" parse] by (simp_all add: processLines_leading)
  have split_free: "\<forall>ws. concat ws = concat vs \<longrightarrow>
      chunks (readLoop parse [] ws) = chunks (readLoop parse [] vs)"
    by (simp add: whole)
  have stop: "sawDone (readLoop parse [] vs) \<longrightarrow>
      (\<forall>more. readLoop parse [] (vs @ more) = readLoop parse [] vs)"
    by (simp add: readLoop_after_done)
  have lines: "\<forall>l. length (lineChunks parse l) \<le> 1 \<and>
        (trim l = [] \<longrightarrow> lineChunks parse l = []) \<and>
        (parse (drop 6 (trim l)) = None \<longrightarrow> lineChunks parse l = [])"
    using lineChunks_length lineChunks_blank lineChunks_malformed by blast
  have example: "parse frameHel = Some (contentDelta ''Hel'') \<and>
      parse frameLo = Some (contentDelta ''lo'') \<and> concat vs = exampleStream \<longrightarrow>
      chunks (readLoop parse [] vs) = [JString ''Hel'', JString ''lo''] \<and>
      sawDone (readLoop parse [] vs)"
  proof
    assume h: "parse frameHel = Some (contentDelta ''Hel'') \<and>
      parse frameLo = Some (contentDelta ''lo'') \<and> concat vs = exampleStream"
    have "isDoneLine ''data: [DONE]''"
      by (simp add: isDoneLine_def trim_def js_whitespace_def)
    then have "list_ex isDoneLine (butlast (split_nl exampleStream))"
      unfolding split_nl_exampleStream by (simp del: append.simps)
    with h wholeTextChunks_exampleStream [of parse]
    show "chunks (readLoop parse [] vs) = [JString ''Hel'', JString ''lo''] \<and>
      sawDone (readLoop parse [] vs)"
      by (simp add: whole sd)
  qed
  have ret: "handleStreamResponse parse (Some vs) = Inr (readLoop parse [] vs)"
    by (simp add: handleStreamResponse_def)
  from ret whole [of vs] split_free sd [of vs] stop readLoop_reads [of parse "[]" vs]
    lines example
  show ?thesis by blast
qed

theorem handleStreamResponse_stream_order_witness:
  "exampleParse frameHel = Some (contentDelta ''Hel'') \<and>
   exampleParse frameLo = Some (contentDelta ''lo'') \<and>
   concat exampleReads = exampleStream \<and>
   concat [exampleStream] = concat exampleReads \<and>
   trim ''  '' = [] \<and> exampleParse (drop 6 (trim ''data: {'')) = None \<and>
   chunks (readLoop exampleParse [] exampleReads) = [JString ''Hel'', JString ''lo''] \<and>
   chunks (readLoop exampleParse [] [exampleStream]) = [JString ''Hel'', JString ''lo''] \<and>
   sawDone (readLoop exampleParse [] exampleReads) \<and>
   readLoop exampleParse [] (exampleReads @ [''data: '' @ frameLo]) =
     readLoop exampleParse [] exampleReads \<and>
   lineChunks exampleParse ''  '' = [] \<and> lineChunks exampleParse ''data: {'' = []"
proof -
  have p: "exampleParse frameHel = Some (contentDelta ''Hel'')"
    "exampleParse frameLo = Some (contentDelta ''lo'')"
    by (simp_all add: exampleParse_def frameHel_def frameLo_def)
  have c: "concat exampleReads = exampleStream"
    by (simp add: exampleReads_def exampleStream_def frameHel_def frameLo_def)
  have t: "trim ''  '' = []" "exampleParse (drop 6 (trim ''data: {'')) = None"
    by (simp_all add: trim_def js_whitespace_def exampleParse_def frameHel_def frameLo_def)
  note thm1 = handleStreamResponse_stream_order [of exampleParse exampleReads]
  from thm1 p c have a: "chunks (readLoop exampleParse [] exampleReads) =
      [JString ''Hel'', JString ''lo'']" "sawDone (readLoop exampleParse [] exampleReads)"
    by blast+
  from thm1 c a(1) have b: "chunks (readLoop exampleParse [] [exampleStream]) =
      [JString ''Hel'', JString ''lo'']"
    by (metis concat.simps(1) concat.simps(2) append_Nil2)
  from thm1 a(2) have d: "readLoop exampleParse [] (exampleReads @ [''data: '' @ frameLo]) =
     readLoop exampleParse [] exampleReads"
    by blast
  from thm1 t have e: "lineChunks exampleParse ''  '' = []"
    "lineChunks exampleParse ''data: {'' = []"
    by blast+
  from p c t a b d e show ?thesis by simp
qed

lemma extractStreamContent_falsy:
  "\<not> truthy (choicesDeltaContent parsed) \<Longrightarrow> \<not> truthy (deltaText parsed) \<Longrightarrow>
     extractStreamContent parsed = None \<or> extractStreamContent parsed = Some (JString [])"
  by (simp add: extractStreamContent_def)

lemma deliver_falsy:
  "parse d = Some parsed \<Longrightarrow> \<not> truthy (choicesDeltaContent parsed) \<Longrightarrow>
   \<not> truthy (deltaText parsed) \<Longrightarrow> deliver parse d = []"
  using extractStreamContent_falsy [of parsed] by (auto simp: deliver_def)

lemma deliver_truthy: "c \<in> set (deliver parse d) \<Longrightarrow> truthy (Some c)"
  by (auto simp: deliver_def split: option.splits if_splits)

lemma processLine_truthy:
  "processLine parse l = Some cs \<Longrightarrow> c \<in> set cs \<Longrightarrow> truthy (Some c)"
  by (auto simp: processLine_def Let_def deliver_truthy split: if_splits)

lemma processLines_truthy: "c \<in> set (fst (processLines parse ls)) \<Longrightarrow> truthy (Some c)"
proof (induction ls)
  case Nil
  then show ?case by simp
next
  case (Cons l ls)
  show ?case
  proof (cases "processLine parse l")
    case None
    with Cons.prems show ?thesis by simp
  next
    case (Some cs)
    with Cons.prems have "c \<in> set cs \<or> c \<in> set (fst (processLines parse ls))"
      by (auto split: prod.splits)
    with Cons.IH processLine_truthy [OF Some] show ?thesis by blast
  qed
qed

lemma flushBuffer_truthy: "c \<in> set (flushBuffer parse b) \<Longrightarrow> truthy (Some c)"
  by (auto simp: flushBuffer_def Let_def deliver_truthy split: if_splits)

lemma readLoop_truthy: "c \<in> set (chunks (readLoop parse buffer vs)) \<Longrightarrow> truthy (Some c)"
proof (induction vs arbitrary: buffer)
  case Nil
  then show ?case by (simp add: flushBuffer_truthy)
next
  case (Cons v vs)
  obtain cs d where pl: "processLines parse (butlast (split_nl (buffer @ v))) = (cs, d)"
    by (cases "processLines parse (butlast (split_nl (buffer @ v)))") auto
  from processLines_truthy [of _ parse "butlast (split_nl (buffer @ v))"] pl
  have cs: "\<And>x. x \<in> set cs \<Longrightarrow> truthy (Some x)" by simp
  show ?case
  proof (cases d)
    case True
    with Cons.prems pl cs show ?thesis by (simp add: Let_def)
  next
    case False
    with Cons.prems pl
    have "c \<in> set cs \<or> c \<in> set (chunks (readLoop parse (last (split_nl (buffer @ v))) vs))"
      by (simp add: Let_def)
    with cs Cons.IH show ?thesis by blast
  qed
qed

text \<open>
  C10. Every argument \<open>onChunk\<close> is called with during streaming is truthy, so it is
  never the empty string. A frame whose parsed value has neither a truthy
  \<open>choices[0].delta.content\<close> nor a truthy \<open>delta.text\<close> (for a string: a non-empty one)
  makes no call, in the loop and in the final flush alike.
\<close>

theorem onChunk_never_empty:
  "handleStreamResponse parse (Some vs) = Inr (readLoop parse [] vs) \<and>
   (\<forall>c\<in>set (chunks (readLoop parse [] vs)). truthy (Some c) \<and> c \<noteq> JString []) \<and>
   (\<forall>parsed. \<not> truthy (choicesDeltaContent parsed) \<and> \<not> truthy (deltaText parsed) \<longrightarrow>
      (\<forall>d. parse d = Some parsed \<longrightarrow> deliver parse d = []) \<and>
      (\<forall>l. parse (drop 6 (trim l)) = Some parsed \<longrightarrow>
         (processLine parse l = None \<or> processLine parse l = Some []) \<and>
         flushBuffer parse l = [])) \<and>
   (\<forall>s. truthy (Some (JString s)) = (s \<noteq> []))"
proof -
  have ret: "handleStreamResponse parse (Some vs) = Inr (readLoop parse [] vs)"
    by (simp add: handleStreamResponse_def)
  have nonempty: "\<forall>c\<in>set (chunks (readLoop parse [] vs)). truthy (Some c) \<and> c \<noteq> JString []"
  proof
    fix c assume "c \<in> set (chunks (readLoop parse [] vs))"
    then have "truthy (Some c)" by (rule readLoop_truthy)
    then show "truthy (Some c) \<and> c \<noteq> JString []" by auto
  qed
  have silent: "\<forall>parsed. \<not> truthy (choicesDeltaContent parsed) \<and> \<not> truthy (deltaText parsed) \<longrightarrow>
      (\<forall>d. parse d = Some parsed \<longrightarrow> deliver parse d = []) \<and>
      (\<forall>l. parse (drop 6 (trim l)) = Some parsed \<longrightarrow>
         (processLine parse l = None \<or> processLine parse l = Some []) \<and>
         flushBuffer parse l = [])"
  proof (intro allI impI)
    fix parsed
    assume f: "\<not> truthy (choicesDeltaContent parsed) \<and> \<not> truthy (deltaText parsed)"
    have d: "\<And>d. parse d = Some parsed \<Longrightarrow> deliver parse d = []"
      using f deliver_falsy [of parse _ parsed] by blast
    have l: "\<And>l. parse (drop 6 (trim l)) = Some parsed \<Longrightarrow>
         (processLine parse l = None \<or> processLine parse l = Some []) \<and>
         flushBuffer parse l = []"
      using d by (auto simp add: processLine_def flushBuffer_def Let_def startsWith_def)
    from d l show "(\<forall>d. parse d = Some parsed \<longrightarrow> deliver parse d = []) \<and>
      (\<forall>l. parse (drop 6 (trim l)) = Some parsed \<longrightarrow>
         (processLine parse l = None \<or> processLine parse l = Some []) \<and>
         flushBuffer parse l = [])"
      by blast
  qed
  from ret nonempty silent show ?thesis by simp
qed

theorem onChunk_never_empty_witness:
  "\<not> truthy (choicesDeltaContent (contentDelta [])) \<and>
   \<not> truthy (deltaText (contentDelta [])) \<and>
   emptyDeltaParse (drop 6 (trim ''data: x'')) = Some (contentDelta []) \<and>
   processLine emptyDeltaParse ''data: x'' = Some [] \<and>
   flushBuffer emptyDeltaParse ''data: x'' = [] \<and>
   JString ''Hel'' \<in> set (chunks (readLoop exampleParse [] exampleReads)) \<and>
   truthy (Some (JString ''Hel''))"
proof -
  have f: "\<not> truthy (choicesDeltaContent (contentDelta [])) \<and>
    \<not> truthy (deltaText (contentDelta []))"
    by (simp add: choicesDeltaContent_def deltaText_def contentDelta_def)
  have p: "emptyDeltaParse (drop 6 (trim ''data: x'')) = Some (contentDelta [])"
    by (simp add: emptyDeltaParse_def)
  have nd: "processLine emptyDeltaParse ''data: x'' \<noteq> None"
    by (simp add: processLine_def trim_def js_whitespace_def startsWith_def)
  note silent = onChunk_never_empty [of emptyDeltaParse "[]", THEN conjunct2, THEN conjunct2,
      THEN conjunct1, THEN spec, THEN mp, OF f, THEN conjunct2, THEN spec, THEN mp, OF p]
  from silent nd have a: "processLine emptyDeltaParse ''data: x'' = Some [] \<and>
    flushBuffer emptyDeltaParse ''data: x'' = []"
    by (simp only: simp_thms)
  have m: "JString ''Hel'' \<in> set (chunks (readLoop exampleParse [] exampleReads))"
    by (simp add: exampleStream_def exampleReads_def frameHel_def frameLo_def exampleParse_def
        contentDelta_def processLine_def deliver_def extractStreamContent_def
        choicesDeltaContent_def deltaText_def flushBuffer_def trim_def js_whitespace_def
        startsWith_def Let_def)
  note each = onChunk_never_empty [of exampleParse exampleReads, THEN conjunct2,
      THEN conjunct1, THEN bspec, OF m, THEN conjunct1]
  from f p a m each show ?thesis by (simp only: simp_thms)
qed

end
